theory Spec2Isabelle
  imports Main "HOL-Library.Word"
begin

unbundle bit_operations_syntax

section \<open>Sector layout and addresses\<close>

text \<open>
  Modelled from the spec: the constants of the sector layout and the address helpers are
  declared in a header that is not among the sources. The values are those of the
  specification: a raw sector is 2352 bytes, that is 588 samples of 4 bytes; it starts
  with the 12-byte sync \<open>00 FF\<times>10 00\<close>, followed by a 4-byte header (minute, second, frame
  in BCD, mode) and 2336 bytes of payload. \<open>LBA_START\<close> is the earliest addressable sector,
  and MSF 00:00:00 is LBA \<open>-150\<close>.
\<close>

abbreviation CD_DATA_SIZE :: nat where
  "CD_DATA_SIZE \<equiv> 2352"

abbreviation CD_DATA_SIZE_SAMPLES :: nat where
  "CD_DATA_SIZE_SAMPLES \<equiv> 588"

definition CD_DATA_SYNC :: "8 word list" where
  "CD_DATA_SYNC = [0x00, 0xFF, 0xFF, 0xFF, 0xFF, 0xFF, 0xFF, 0xFF, 0xFF, 0xFF, 0xFF, 0x00]"

abbreviation LBA_START :: int where
  "LBA_START \<equiv> - 45150"

abbreviation MSF_LBA_SHIFT :: int where
  "MSF_LBA_SHIFT \<equiv> - 150"

definition MSF_to_LBA :: "int \<Rightarrow> int \<Rightarrow> int \<Rightarrow> int" where
  "MSF_to_LBA m s f = 75 * (60 * m + s) + f + MSF_LBA_SHIFT"

definition bcd_decode :: "8 word \<Rightarrow> int" where
  "bcd_decode b = uint (drop_bit 4 b) * 10 + uint (b AND 0x0F)"

definition BCDMSF_to_LBA :: "8 word \<Rightarrow> 8 word \<Rightarrow> 8 word \<Rightarrow> int" where
  "BCDMSF_to_LBA m s f = MSF_to_LBA (bcd_decode m) (bcd_decode s) (bcd_decode f)"

text \<open>
  Modelled from the spec: \<open>is_zeroed(data, size)\<close>, from the same header, is the zero check
  of the first \<open>size\<close> bytes.
\<close>

definition is_zeroed :: "8 word list \<Rightarrow> nat \<Rightarrow> bool" where
  "is_zeroed data sz = list_all (\<lambda>b. b = 0) (take sz data)"

section \<open>LibCrypt detection (systems/psx.cc, SystemPSX::detectLibCrypt)\<close>

definition LIBCRYPT_SECTORS_BASE :: "int list" where
  "LIBCRYPT_SECTORS_BASE =
     [13955, 14081, 14335, 14429, 14499, 14749, 14906, 14980,
      15092, 15162, 15228, 15478, 15769, 15881, 15951, 16017,
      41895, 42016, 42282, 42430, 42521, 42663, 42862, 43027,
      43139, 43204, 43258, 43484, 43813, 43904, 44009, 44162]"

abbreviation LIBCRYPT_SECTORS_SHIFT :: int where
  "LIBCRYPT_SECTORS_SHIFT \<equiv> 5"

definition LIBCRYPT_SECTORS_COUNT :: "nat set" where
  "LIBCRYPT_SECTORS_COUNT = {16, 32}"

text \<open>
  The loop over the base sectors. \<open>q_valid lba\<close> stands for reading the subcode entry of
  \<open>lba\<close> (at index \<open>lba - LBA_START\<close>), extracting channel Q and testing \<open>Valid()\<close>; these
  are declared in headers that are not among the sources. A base that qualifies pushes both \<open>lba1\<close> and
  \<open>lba2\<close>.
\<close>

fun libcrypt_candidates :: "(int \<Rightarrow> bool) \<Rightarrow> int \<Rightarrow> int list \<Rightarrow> int list" where
  "libcrypt_candidates q_valid lba_end [] = []"
| "libcrypt_candidates q_valid lba_end (b # bs) =
     (let lba1 = b; lba2 = b + LIBCRYPT_SECTORS_SHIFT in
      if lba1 \<ge> lba_end \<or> lba2 \<ge> lba_end then libcrypt_candidates q_valid lba_end bs
      else if \<not> q_valid lba1 \<and> \<not> q_valid lba2
           then lba1 # lba2 # libcrypt_candidates q_valid lba_end bs
           else libcrypt_candidates q_valid lba_end bs)"

text \<open>\<^verbatim>\<open>int32_t lba_end = _trackSize / CD_DATA_SIZE\<close>: the quotient, cut to 32 bits and read
  as two's complement.\<close>

definition track_lba_count :: "nat \<Rightarrow> int" where
  "track_lba_count track_size = sint (word_of_nat (track_size div CD_DATA_SIZE) :: 32 word)"

text \<open>
  \<open>detectLibCrypt\<close>: the flag, and the LBAs of the report lines (one line per candidate,
  written only when the flag is set).
\<close>

definition detectLibCrypt :: "(int \<Rightarrow> bool) \<Rightarrow> nat \<Rightarrow> bool \<times> int list" where
  "detectLibCrypt q_valid track_size =
     (let candidates = libcrypt_candidates q_valid (track_lba_count track_size)
                         LIBCRYPT_SECTORS_BASE
      in if length candidates \<in> LIBCRYPT_SECTORS_COUNT then (True, candidates)
         else (False, []))"

text \<open>
  The count of the specification: the bases for which \<open>base\<close> and \<open>base + 5\<close> both lie
  before the end of the track and both have an invalid Q.
\<close>

definition libcrypt_base_count :: "(int \<Rightarrow> bool) \<Rightarrow> int \<Rightarrow> nat" where
  "libcrypt_base_count q_valid lba_end =
     length (filter (\<lambda>b. b < lba_end \<and> b + 5 < lba_end \<and> \<not> q_valid b \<and> \<not> q_valid (b + 5))
               LIBCRYPT_SECTORS_BASE)"

text \<open>A subcode whose Q is valid exactly above a given LBA.\<close>

definition q_valid_above :: "int \<Rightarrow> int \<Rightarrow> bool" where
  "q_valid_above limit lba = (limit < lba)"

section \<open>Disc bounds from the TOC (redumper.cc, redumper_dump)\<close>

text \<open>
  Modelled from the spec: the TOC classes are declared in a header that is not among the
  sources. The specification gives \<open>Disc{sessions[]}\<close>, \<open>Session{tracks[]}\<close> and
  \<open>Track{number, control, indices[], lba_start, lba_end}\<close>; the fields of a track carry the
  prefix \<open>track_\<close> here, to keep \<open>lba_start\<close> and \<open>lba_end\<close> free for the variables of the
  dump loop.
\<close>

record Track =
  track_number :: nat
  track_control :: "8 word"
  track_indices :: "int list"
  track_lba_start :: int
  track_lba_end :: int

record Session =
  tracks :: "Track list"

record TOC =
  sessions :: "Session list"

text \<open>\<^verbatim>\<open>toc.sessions.back().tracks.back()\<close>; \<open>back()\<close> on an empty vector is undefined in
  C++, here \<open>None\<close>.\<close>

definition last_track :: "TOC \<Rightarrow> Track option" where
  "last_track toc =
     (if sessions toc = [] then None
      else if tracks (last (sessions toc)) = [] then None
      else Some (last (tracks (last (sessions toc)))))"

text \<open>
  \<^verbatim>\<open>int32_t lba_end = MSF_to_LBA(MSF{74, 0, 0});\<close> and, after the TOC is read,
  \<^verbatim>\<open>if(last.lba_end < 0) LOG("warning: fake TOC detected, ...");
  else lba_end = last.lba_end;\<close>.
  The result is the pair of the fake-TOC flag and \<open>lba_end\<close>. \<open>lba_start\<close>, the drive's
  \<open>pregap_start\<close>, is not read here.
\<close>

definition toc_lba_end :: "TOC \<Rightarrow> (bool \<times> int) option" where
  "toc_lba_end toc =
     (case last_track toc of
        None \<Rightarrow> None
      | Some t \<Rightarrow>
          (if track_lba_end t < 0 then Some (True, MSF_to_LBA 74 0 0)
           else Some (False, track_lba_end t)))"

text \<open>A single-session TOC with one track that ends at LBA \<open>-100\<close>.\<close>

definition early_end_toc :: TOC where
  "early_end_toc =
     \<lparr>sessions = [\<lparr>tracks = [\<lparr>track_number = 1, track_control = 4, track_indices = [0],
        track_lba_start = - 150, track_lba_end = - 100\<rparr>]\<rparr>]\<rparr>"

text \<open>The test of the specification: the last track of the last session ends at or before
  \<open>lba_start\<close>.\<close>

definition fake_toc_spec :: "int \<Rightarrow> TOC \<Rightarrow> bool" where
  "fake_toc_spec lba_start toc =
     (case last_track toc of None \<Rightarrow> False | Some t \<Rightarrow> track_lba_end t \<le> lba_start)"

section \<open>Per-sample state and the refine merge (redumper.cc, redumper_dump)\<close>

text \<open>
  Modelled from the spec: the enumeration \<open>State\<close> (one byte per sample) is declared in
  a header that is not among the sources. Its values and their order are those of the
  specification's data model, lowest first; \<open>ERROR_SKIP\<close> is the value 0, the fill byte of
  a state that was never written.
\<close>

datatype State = ERROR_SKIP | ERROR_C2 | SUCCESS_C2_OFF | SUCCESS_SCSI_OFF | SUCCESS

fun state_rank :: "State \<Rightarrow> nat" where
  "state_rank ERROR_SKIP = 0"
| "state_rank ERROR_C2 = 1"
| "state_rank SUCCESS_C2_OFF = 2"
| "state_rank SUCCESS_SCSI_OFF = 3"
| "state_rank SUCCESS = 4"

instantiation State :: linorder
begin

definition less_eq_State :: "State \<Rightarrow> State \<Rightarrow> bool" where
  "less_eq_State a b = (state_rank a \<le> state_rank b)"

definition less_State :: "State \<Rightarrow> State \<Rightarrow> bool" where
  "less_State a b = (state_rank a < state_rank b)"

instance
proof
  fix x y z :: State
  show "(x < y) = (x \<le> y \<and> \<not> y \<le> x)"
    by (auto simp: less_State_def less_eq_State_def)
  show "x \<le> x" by (simp add: less_eq_State_def)
  show "x \<le> y \<Longrightarrow> y \<le> z \<Longrightarrow> x \<le> z" by (simp add: less_eq_State_def)
  show "x \<le> y \<Longrightarrow> y \<le> x \<Longrightarrow> x = y"
    by (cases x; cases y) (simp_all add: less_eq_State_def)
  show "x \<le> y \<or> y \<le> x" by (auto simp: less_eq_State_def)
qed

end

text \<open>The data buffer is read through \<^verbatim>\<open>(uint32_t *)sector_data.data()\<close>: one 32-bit
  word per sample.\<close>

text \<open>
  The variables of the merge loop of the refine path: the five flags, and the buffers
  \<open>sector_state\<close> and \<open>sector_data\<close> of the new read, which the loop overwrites in place.
\<close>

record merge_vars =
  update :: bool
  scsi_exists_file :: bool
  c2_exists_file :: bool
  scsi_exists :: bool
  c2_exists :: bool
  sector_state :: "State list"
  sector_data :: "32 word list"

text \<open>The body of \<^verbatim>\<open>for(uint32_t i = 0; i < CD_DATA_SIZE_SAMPLES; ++i)\<close>, statement by
  statement.\<close>

definition refine_merge_step :: "State list \<Rightarrow> 32 word list \<Rightarrow> nat \<Rightarrow> merge_vars \<Rightarrow> merge_vars" where
  "refine_merge_step sector_state_file sector_data_file i v =
     (let v1 = (if sector_state_file ! i = ERROR_SKIP then v\<lparr>scsi_exists_file := True\<rparr>
                else if sector_state_file ! i = ERROR_C2 then v\<lparr>c2_exists_file := True\<rparr>
                else v);
          v2 = (if sector_state v1 ! i > sector_state_file ! i then v1\<lparr>update := True\<rparr>
                else v1);
          v3 = (if sector_state_file ! i > sector_state v2 ! i
                then v2\<lparr>sector_state := (sector_state v2)[i := sector_state_file ! i],
                        sector_data := (sector_data v2)[i := sector_data_file ! i]\<rparr>
                else v2)
      in if sector_state v3 ! i = ERROR_SKIP then v3\<lparr>scsi_exists := True\<rparr>
         else if sector_state v3 ! i = ERROR_C2 then v3\<lparr>c2_exists := True\<rparr>
         else v3)"

definition refine_merge_upto ::
  "nat \<Rightarrow> State list \<Rightarrow> 32 word list \<Rightarrow> State list \<Rightarrow> 32 word list \<Rightarrow> merge_vars" where
  "refine_merge_upto n sector_state_file sector_data_file new_state new_data =
     fold (refine_merge_step sector_state_file sector_data_file) [0..<n]
       \<lparr>update = False, scsi_exists_file = False, c2_exists_file = False,
        scsi_exists = False, c2_exists = False,
        sector_state = new_state, sector_data = new_data\<rparr>"

definition refine_merge ::
  "State list \<Rightarrow> 32 word list \<Rightarrow> State list \<Rightarrow> 32 word list \<Rightarrow> merge_vars" where
  "refine_merge = refine_merge_upto CD_DATA_SIZE_SAMPLES"

text \<open>
  What the state and data streams hold at this sector after the step: the merged buffers
  when \<open>update\<close> is set (the two \<open>write_entry\<close> calls), what was read from them otherwise.
\<close>

definition refine_write_back ::
  "State list \<Rightarrow> 32 word list \<Rightarrow> State list \<Rightarrow> 32 word list \<Rightarrow> State list \<times> 32 word list" where
  "refine_write_back sector_state_file sector_data_file new_state new_data =
     (let v = refine_merge sector_state_file sector_data_file new_state new_data
      in if update v then (sector_state v, sector_data v)
         else (sector_state_file, sector_data_file))"

text \<open>
  A sector for which the two inputs of the merge tie at sample 0 and differ at sample 1:
  the file holds \<open>SUCCESS\<close> everywhere but \<open>ERROR_C2\<close> at sample 1 and the data words
  \<open>0x11111111\<close>; the new read is \<open>SUCCESS\<close> everywhere with the data words \<open>0x22222222\<close>.
\<close>

definition tie_state_file :: "State list" where
  "tie_state_file = SUCCESS # ERROR_C2 # replicate 586 SUCCESS"

definition tie_data_file :: "32 word list" where
  "tie_data_file = replicate 588 0x11111111"

definition tie_state_new :: "State list" where
  "tie_state_new = replicate 588 SUCCESS"

definition tie_data_new :: "32 word list" where
  "tie_data_new = replicate 588 0x22222222"

section \<open>Plextor lead-in commit (redumper.cc, plextor_store_sessions_leadin)\<close>

text \<open>
  The three streams, by sector: \<open>fs_state k\<close> is what
  \<^verbatim>\<open>read_entry(fs_state, ..., lba_index = k, 1, read_offset, ERROR_SKIP)\<close> returns (588 states,
  \<open>ERROR_SKIP\<close> where nothing was written), \<open>fs_scm k\<close> the 588 data words and
  \<open>fs_sub k\<close> the 96 subcode bytes at entry \<open>k\<close>. \<open>write_entry\<close> at \<open>k\<close> replaces the
  sector. All reads and writes of one stream use the same shift (the drive's read
  offset), so the sectors of different \<open>k\<close> do not overlap.
\<close>

record streams =
  fs_scm :: "int \<Rightarrow> 32 word list"
  fs_state :: "int \<Rightarrow> State list"
  fs_sub :: "int \<Rightarrow> 8 word list"

text \<open>One entry of a lead-in buffer: the SCSI status, the 2352 data bytes (as 588 words)
  and the 96 subcode bytes.\<close>

record leadin_entry =
  status_code :: "8 word"
  entry_data :: "32 word list"
  entry_subcode :: "8 word list"

text \<open>
  \<^verbatim>\<open>for(auto const &s : sector_state) if(s < State::SUCCESS_C2_OFF) { ...; break; }\<close>:
  the scan stops at the first sample below \<open>SUCCESS_C2_OFF\<close>; the result says whether the
  body ran.
\<close>

fun leadin_improves :: "State list \<Rightarrow> bool" where
  "leadin_improves [] = False"
| "leadin_improves (s # ss) = (if s < SUCCESS_C2_OFF then True else leadin_improves ss)"

text \<open>
  The body of the store loop for one entry. \<open>q_valid\<close> stands for
  \<open>subcode_extract_channel\<close> followed by \<open>ChannelQ::Valid\<close>, which are declared in a header
  that is not among the sources. An entry with a SCSI error is only logged.
\<close>

definition leadin_store_entry ::
  "(8 word list \<Rightarrow> bool) \<Rightarrow> int \<Rightarrow> leadin_entry \<Rightarrow> streams \<Rightarrow> streams" where
  "leadin_store_entry q_valid lba_index e fs =
     (if status_code e \<noteq> 0 then fs
      else
        let fs1 = (if leadin_improves (fs_state fs lba_index)
                   then fs\<lparr>fs_scm := (fs_scm fs)(lba_index := entry_data e),
                           fs_state := (fs_state fs)
                             (lba_index := replicate CD_DATA_SIZE_SAMPLES SUCCESS_C2_OFF)\<rparr>
                   else fs)
        in if \<not> q_valid (fs_sub fs1 lba_index)
           then fs1\<lparr>fs_sub := (fs_sub fs1)(lba_index := entry_subcode e)\<rparr>
           else fs1)"

text \<open>
  \<^verbatim>\<open>for(uint32_t i = 0; i < n; ++i)\<close> over the entries of one session's buffer, with
  \<^verbatim>\<open>lba = session_lba_start[s] + (di.pregap_start - MSF_LBA_SHIFT) - (n - i)\<close> and
  \<^verbatim>\<open>lba_index = lba - LBA_START\<close>.
\<close>

fun leadin_store_buffer ::
  "(8 word list \<Rightarrow> bool) \<Rightarrow> int \<Rightarrow> int \<Rightarrow> nat \<Rightarrow> nat \<Rightarrow> leadin_entry list \<Rightarrow> streams \<Rightarrow> streams" where
  "leadin_store_buffer q_valid session_start pregap_start n i [] fs = fs"
| "leadin_store_buffer q_valid session_start pregap_start n i (e # es) fs =
     leadin_store_buffer q_valid session_start pregap_start n (Suc i) es
       (leadin_store_entry q_valid
          (session_start + (pregap_start - MSF_LBA_SHIFT) - (int n - int i) - LBA_START) e fs)"

text \<open>The outer loop over the sessions: each session start with its captured buffer.\<close>

fun leadin_store_sessions ::
  "(8 word list \<Rightarrow> bool) \<Rightarrow> int \<Rightarrow> (int \<times> leadin_entry list) list \<Rightarrow> streams \<Rightarrow> streams" where
  "leadin_store_sessions q_valid pregap_start [] fs = fs"
| "leadin_store_sessions q_valid pregap_start ((session_start, buffer) # rest) fs =
     leadin_store_sessions q_valid pregap_start rest
       (leadin_store_buffer q_valid session_start pregap_start (length buffer) 0 buffer fs)"

text \<open>
  The entries that the buffers hold for a sector, stated apart from the store loop: entry
  \<open>i\<close> of a buffer of \<open>n\<close> entries belongs to the sector with index
  \<open>session_start + (pregap_start - MSF_LBA_SHIFT) - (n - i) - LBA_START\<close>. The entries
  of all buffers are taken in the order of the sessions and, within a buffer, from its
  start; \<open>leadin_first_entry\<close> is the first one for sector \<open>k\<close> that has no SCSI error.
\<close>

definition buffer_entries :: "int \<Rightarrow> int \<Rightarrow> leadin_entry list \<Rightarrow> (int \<times> leadin_entry) list" where
  "buffer_entries session_start pregap_start buffer =
     map (\<lambda>(i, e). (session_start + (pregap_start - MSF_LBA_SHIFT)
                       - (int (length buffer) - int i) - LBA_START, e))
         (zip [0..<length buffer] buffer)"

definition leadin_first_entry ::
  "int \<Rightarrow> (int \<times> leadin_entry list) list \<Rightarrow> int \<Rightarrow> leadin_entry option" where
  "leadin_first_entry pregap_start buffers k =
     map_option snd
       (find (\<lambda>(j, e). j = k \<and> status_code e = 0)
          (concat (map (\<lambda>(session_start, buffer).
                          buffer_entries session_start pregap_start buffer) buffers)))"

text \<open>A stored sector with \<open>SUCCESS\<close> at sample 0 and \<open>ERROR_C2\<close> at sample 1, and a lead-in
  buffer of one good entry for it.\<close>

definition mixed_streams :: streams where
  "mixed_streams =
     \<lparr>fs_scm = (\<lambda>k. replicate 588 0x11111111),
      fs_state = (\<lambda>k. SUCCESS # ERROR_C2 # replicate 586 SUCCESS),
      fs_sub = (\<lambda>k. replicate 96 0)\<rparr>"

definition good_entry :: leadin_entry where
  "good_entry =
     \<lparr>status_code = 0, entry_data = replicate 588 0x22222222, entry_subcode = replicate 96 0\<rparr>"

definition clean_streams :: streams where
  "clean_streams =
     \<lparr>fs_scm = (\<lambda>k. replicate 588 0x11111111),
      fs_state = (\<lambda>k. replicate 588 SUCCESS),
      fs_sub = (\<lambda>k. replicate 96 0)\<rparr>"

text \<open>A stand-in for the Q check that accepts every stored subcode.\<close>

definition q_accept_all :: "8 word list \<Rightarrow> bool" where
  "q_accept_all sub = True"

section \<open>Sector scrambler (scrambler.cc)\<close>

text \<open>
  One turn of the inner loop of \<^verbatim>\<open>Scrambler::GenerateTable\<close>:
  \<^verbatim>\<open>carry = shift_register & 1 ^ shift_register >> 1 & 1\<close> (in C the shift binds
  tightest, then \<^verbatim>\<open>&\<close>, then \<^verbatim>\<open>^\<close>) and
  \<^verbatim>\<open>shift_register = ((uint16_t)carry << 15 | shift_register) >> 1\<close>.
\<close>

definition lfsr_step :: "16 word \<Rightarrow> 16 word" where
  "lfsr_step shift_register =
     (let carry = (shift_register AND 1) XOR (drop_bit 1 shift_register AND 1)
      in drop_bit 1 (push_bit 15 carry OR shift_register))"

text \<open>
  The outer loop, from \<open>i = sizeof(CD_DATA_SYNC)\<close> up to \<open>CD_DATA_SIZE\<close>: the table byte is
  the low byte of the register, then the register advances by \<open>CHAR_BIT = 8\<close> bits.
\<close>

fun lfsr_bytes :: "nat \<Rightarrow> 16 word \<Rightarrow> 8 word list" where
  "lfsr_bytes 0 shift_register = []"
| "lfsr_bytes (Suc n) shift_register =
     ucast shift_register # lfsr_bytes n ((lfsr_step ^^ 8) shift_register)"

text \<open>\<^verbatim>\<open>GenerateTable\<close>: the first 12 bytes are set to zero, the rest come from the register
  preset to \<open>0x0001\<close>.\<close>

definition GenerateTable :: "8 word list" where
  "GenerateTable = replicate (length CD_DATA_SYNC) 0
     @ lfsr_bytes (CD_DATA_SIZE - length CD_DATA_SYNC) 0x0001"

text \<open>
  \<^verbatim>\<open>Scrambler::Process(sector_out, sector_in, size)\<close>:
  \<^verbatim>\<open>for(i = 0; i < size; ++i) sector_out[i] = sector_in[i] ^ _table[i]\<close>.
  The table is a parameter here (the object's \<open>_table\<close>); \<open>Process\<close> below fixes it to
  the generated one. \<open>Descramble\<close> calls it in place, with \<open>sector_out = sector_in\<close>: turn
  \<open>i\<close> reads byte \<open>i\<close> before anything is written to it, so the input can be taken as it
  was before the call. An index past the end of a buffer or of the table is undefined
  behaviour in C++; in the model such a write is dropped and such a read is unspecified.
\<close>

definition process_with :: "8 word list \<Rightarrow> 8 word list \<Rightarrow> 8 word list \<Rightarrow> nat \<Rightarrow> 8 word list" where
  "process_with tbl sector_out sector_in sz =
     fold (\<lambda>i out. out[i := sector_in ! i XOR tbl ! i]) [0..<sz] sector_out"

definition Process :: "8 word list \<Rightarrow> 8 word list \<Rightarrow> nat \<Rightarrow> 8 word list" where
  "Process sector_out sector_in sz = process_with GenerateTable sector_out sector_in sz"

text \<open>
  \<^verbatim>\<open>bool Scrambler::Descramble(uint8_t *sector, int32_t *lba, uint32_t size)\<close>.
  The buffer is passed and returned; \<open>lba\<close> is \<open>None\<close> for \<open>nullptr\<close>. The address decoder
  is a parameter, so that the theorems hold for whatever \<open>BCDMSF_to_LBA\<close> computes.
  \<open>Sector\<close> has the sync at bytes 0..11, the address at 12..14, the mode at 15 and
  \<open>mode2.user_data\<close> (2336 bytes) from byte 16.
\<close>

definition Descramble ::
  "(8 word \<Rightarrow> 8 word \<Rightarrow> 8 word \<Rightarrow> int) \<Rightarrow> 8 word list \<Rightarrow> int option \<Rightarrow> nat
     \<Rightarrow> bool \<times> 8 word list" where
  "Descramble decode_address sector lba sz =
     (if is_zeroed sector sz \<or> sz < 12 + 4 then (False, sector)
      else
        let s = Process sector sector sz;
            unscrambled =
              (if (case lba of None \<Rightarrow> False
                   | Some l \<Rightarrow> decode_address (s ! 12) (s ! 13) (s ! 14) = l)
               then True
               else if take 12 s = CD_DATA_SYNC then
                 (if s ! 15 = 0 then is_zeroed (drop 16 s) (min (sz - 16) 2336)
                  else if s ! 15 = 1 \<or> s ! 15 = 2 then True
                  else False)
               else False)
        in if \<not> unscrambled then (False, Process s s sz) else (True, s))"

text \<open>
  The success condition of \<open>Descramble\<close> in the words of the specification, on the
  descrambled bytes \<open>s\<close>: (a) an \<open>lba\<close> was supplied and the BCD MSF header decodes to it,
  or (b) the sync matches and the mode is 1 or 2, or (c) the sync matches, the mode is 0
  and the user data is all zero. \<open>checked\<close> is the number of user data bytes looked at:
  the specification's condition is the one with \<open>checked = 2336\<close>, the whole user data area.
\<close>

definition descramble_accepts ::
  "(8 word \<Rightarrow> 8 word \<Rightarrow> 8 word \<Rightarrow> int) \<Rightarrow> 8 word list \<Rightarrow> int option \<Rightarrow> nat \<Rightarrow> bool" where
  "descramble_accepts decode_address s lba checked =
     ((case lba of None \<Rightarrow> False | Some l \<Rightarrow> decode_address (s ! 12) (s ! 13) (s ! 14) = l)
      \<or> (take 12 s = CD_DATA_SYNC \<and> (s ! 15 = 1 \<or> s ! 15 = 2))
      \<or> (take 12 s = CD_DATA_SYNC \<and> s ! 15 = 0
            \<and> list_all (\<lambda>b. b = 0) (take checked (drop 16 s))))"

text \<open>
  A scrambled buffer of 17 bytes that descrambles to the sync, the header 00:00:00 with
  mode 0 and one zero byte of user data.
\<close>

definition short_check_sector :: "8 word list" where
  "short_check_sector =
     [0x00, 0xFF, 0xFF, 0xFF, 0xFF, 0xFF, 0xFF, 0xFF, 0xFF, 0xFF, 0xFF, 0x00,
      0x01, 0x80, 0x00, 0x60, 0x00]"

section \<open>The dump loop: how a read is classified (redumper.cc, redumper_dump)\<close>

text \<open>
  Modelled from the spec: \<open>inside_range\<close> and \<open>bits_count\<close> are declared in a header that is
  not among the sources. Ranges are half-open LBA intervals; \<open>inside_range\<close> returns the
  first range that holds the value (\<open>nullptr\<close> is \<open>None\<close>). \<open>bits_count\<close> is the number of
  bits set.
\<close>

fun inside_range :: "int \<Rightarrow> (int \<times> int) list \<Rightarrow> (int \<times> int) option" where
  "inside_range v [] = None"
| "inside_range v (r # rs) = (if fst r \<le> v \<and> v < snd r then Some r else inside_range v rs)"

definition bits_count :: "8 word \<Rightarrow> 32 word" where
  "bits_count w = of_nat (length (filter (bit w) [0..<8]))"

text \<open>
  \<^verbatim>\<open>uint32_t state_from_c2(std::vector<State> &state, const uint8_t *c2_data)\<close>: one turn of
  the loop over the 588 samples, on the pair of the state vector and \<open>c2_count\<close>. Two
  samples share a C2 byte: the even one takes the high four bits, the odd one the low.
\<close>

definition c2_quad :: "8 word list \<Rightarrow> nat \<Rightarrow> 8 word" where
  "c2_quad c2_data i =
     (if i mod 2 \<noteq> 0 then c2_data ! (i div 2) AND 0x0F
      else drop_bit 4 (c2_data ! (i div 2)))"

definition state_from_c2_step :: "8 word list \<Rightarrow> nat \<Rightarrow> State list \<times> 32 word \<Rightarrow> State list \<times> 32 word" where
  "state_from_c2_step c2_data i sc =
     (if c2_quad c2_data i \<noteq> 0
      then ((fst sc)[i := ERROR_C2], snd sc + bits_count (c2_quad c2_data i))
      else sc)"

definition state_from_c2_upto :: "nat \<Rightarrow> State list \<Rightarrow> 8 word list \<Rightarrow> State list \<times> 32 word" where
  "state_from_c2_upto n state c2_data = fold (state_from_c2_step c2_data) [0..<n] (state, 0)"

definition state_from_c2 :: "State list \<Rightarrow> 8 word list \<Rightarrow> State list \<times> 32 word" where
  "state_from_c2 = state_from_c2_upto CD_DATA_SIZE_SAMPLES"

text \<open>
  The part of one turn of the main loop that reads or writes \<open>errors_scsi\<close> and
  \<open>errors_c2\<close>, with the flags \<open>read\<close> and \<open>store\<close> that guard these statements. The
  bookkeeping of \<open>lba_next\<close>, \<open>lba_overread\<close>, \<open>errors_q\<close> and the subcode shift, the log
  and the writes to the streams touch neither counter and are left out.

  A raw sector has the three planes data, C2 and subcode.
\<close>

record raw_sector =
  raw_data :: "32 word list"
  raw_c2 :: "8 word list"
  raw_subcode :: "8 word list"

text \<open>
  What is fixed for the whole pass: the mode, the drive family, the ranges and \<open>lba_end\<close>.
  \<open>cfg_asus\<close> is \<^verbatim>\<open>drive_is_asus(drive_config) && !options.asus_skip_leadout\<close>,
  \<open>cfg_plextor\<close> is \<^verbatim>\<open>drive_config.type == DriveConfig::Type::PLEXTOR\<close>.
\<close>

record dump_config =
  cfg_refine :: bool
  cfg_asus :: bool
  cfg_plextor :: bool
  cfg_skip_ranges :: "(int \<times> int) list"
  cfg_error_ranges :: "(int \<times> int) list"
  cfg_lba_end :: int

text \<open>
  What the drive and the streams deliver in one turn: the entries
  \<open>asus_cache_extract\<close> returns if the cache is read at this LBA; in refine mode the value
  of \<open>read\<close> after the selection block (which looks at the stored state, the subcode and
  the retry counters); the status, the slow flag and the planes of \<open>read_sector\<close>; and the
  sector of the state and data streams that the refine merge reads.
\<close>

record sector_input =
  in_asus_cache :: "raw_sector list"
  in_refine_read :: bool
  in_status_code :: "8 word"
  in_slow :: bool
  in_sector :: raw_sector
  in_state_file :: "State list"
  in_data_file :: "32 word list"

text \<open>The variables the turn changes: the two counters, the LG/ASUS lead-out buffer, and
  for the turn itself the flag \<open>store\<close> and the \<open>c2_count\<close> of the sector it obtained (0 when
  it obtained none).\<close>

record dump_vars =
  errors_scsi :: "32 word"
  errors_c2 :: "32 word"
  asus_leadout_buffer :: "raw_sector list"
  store :: bool
  c2_count :: "32 word"

text \<open>
  The LG/ASUS block. The cache is read when \<open>lba\<close> starts an error range or equals
  \<open>lba_end\<close>; the buffer serves the sector when \<open>lba\<close> lies in an error range or at or past
  \<open>lba_end\<close> and \<^verbatim>\<open>leadout_index = lba - (r == nullptr ? lba_end : r->first)\<close> is within the
  buffer.
\<close>

definition asus_buffer :: "dump_config \<Rightarrow> sector_input \<Rightarrow> int \<Rightarrow> dump_vars \<Rightarrow> raw_sector list" where
  "asus_buffer cfg inp lba v =
     (let r = inside_range lba (cfg_error_ranges cfg)
      in if cfg_asus cfg
            \<and> ((case r of None \<Rightarrow> False | Some x \<Rightarrow> lba = fst x) \<or> lba = cfg_lba_end cfg)
         then in_asus_cache inp else asus_leadout_buffer v)"

definition asus_entry :: "dump_config \<Rightarrow> sector_input \<Rightarrow> int \<Rightarrow> dump_vars \<Rightarrow> raw_sector option" where
  "asus_entry cfg inp lba v =
     (let r = inside_range lba (cfg_error_ranges cfg);
          buffer = asus_buffer cfg inp lba v;
          leadout_index = nat (lba - (case r of None \<Rightarrow> cfg_lba_end cfg | Some x \<Rightarrow> fst x))
      in if cfg_asus cfg
            \<and> ((case r of None \<Rightarrow> False | Some x \<Rightarrow> lba \<ge> fst x) \<or> lba \<ge> cfg_lba_end cfg)
            \<and> leadout_index < length buffer
         then Some (buffer ! leadout_index) else None)"

text \<open>
  The refine branch of the store block, on the counters: the merge of the new sector with
  the stored one, and the adjustment made when the merged sector is written back.
\<close>

definition refine_adjust ::
  "dump_config \<Rightarrow> sector_input \<Rightarrow> int \<Rightarrow> State list \<Rightarrow> 32 word list \<Rightarrow> dump_vars \<Rightarrow> dump_vars" where
  "refine_adjust cfg inp lba new_state new_data v =
     (let m = refine_merge (in_state_file inp) (in_data_file inp) new_state new_data
      in if update m \<and> inside_range lba (cfg_error_ranges cfg) = None \<and> lba < cfg_lba_end cfg
         then (if scsi_exists_file m \<and> \<not> scsi_exists m
               then v\<lparr>errors_scsi := errors_scsi v - 1,
                      errors_c2 := (if c2_exists m then errors_c2 v + 1 else errors_c2 v)\<rparr>
               else if c2_exists_file m \<and> \<not> c2_exists m
               then v\<lparr>errors_c2 := errors_c2 v - 1\<rparr>
               else v)
         else v)"

text \<open>
  A sector was obtained, from the cache (initial state \<open>SUCCESS_SCSI_OFF\<close>) or from the
  drive (\<open>SUCCESS\<close>): \<open>state_from_c2\<close>, the C2 count, \<open>store = true\<close>, and the store block.
\<close>

definition sector_obtained ::
  "dump_config \<Rightarrow> sector_input \<Rightarrow> int \<Rightarrow> State \<Rightarrow> raw_sector \<Rightarrow> dump_vars \<Rightarrow> dump_vars" where
  "sector_obtained cfg inp lba initial sector v =
     (let sc = state_from_c2 (replicate CD_DATA_SIZE_SAMPLES initial) (raw_c2 sector);
          v1 = (if snd sc \<noteq> 0 \<and> \<not> cfg_refine cfg then v\<lparr>errors_c2 := errors_c2 v + 1\<rparr> else v);
          v2 = v1\<lparr>store := True, c2_count := snd sc\<rparr>
      in if cfg_refine cfg then refine_adjust cfg inp lba (fst sc) (raw_data sector) v2 else v2)"

text \<open>The block under \<^verbatim>\<open>if(read)\<close>: the Plextor slow sector inside an error range, the SCSI
  error, and the good read.\<close>

definition read_block :: "dump_config \<Rightarrow> sector_input \<Rightarrow> int \<Rightarrow> dump_vars \<Rightarrow> dump_vars" where
  "read_block cfg inp lba v =
     (if cfg_plextor cfg \<and> in_slow inp \<and> inside_range lba (cfg_error_ranges cfg) \<noteq> None
      then v
      else if in_status_code inp \<noteq> 0
      then (if inside_range lba (cfg_error_ranges cfg) = None \<and> lba < cfg_lba_end cfg
            then (if \<not> cfg_refine cfg then v\<lparr>errors_scsi := errors_scsi v + 1\<rparr> else v)
            else v)
      else sector_obtained cfg inp lba SUCCESS (in_sector inp) v)"

text \<open>One turn of the loop at \<open>lba\<close>. A skipped LBA leaves everything as it is.\<close>

definition dump_iteration :: "dump_config \<Rightarrow> sector_input \<Rightarrow> int \<Rightarrow> dump_vars \<Rightarrow> dump_vars" where
  "dump_iteration cfg inp lba v =
     (if inside_range lba (cfg_skip_ranges cfg) \<noteq> None then v
      else
        let v0 = v\<lparr>asus_leadout_buffer := asus_buffer cfg inp lba v, store := False, c2_count := 0\<rparr>
        in case asus_entry cfg inp lba v of
             Some entry \<Rightarrow> sector_obtained cfg inp lba SUCCESS_SCSI_OFF entry v0
           | None \<Rightarrow>
               (if (if cfg_refine cfg then in_refine_read inp else True)
                then read_block cfg inp lba v0 else v0))"

text \<open>
  A dump pass over a two-session disc on a generic drive: sessions at \<open>[0, 30000)\<close> and
  \<open>[32000, 60000)\<close>, \<open>pregap_start = -150\<close>, hence the error range \<open>[30000, 31850)\<close> and
  \<open>lba_end = 60000\<close>; the same pass on an LG/ASUS drive; a sector whose C2 plane has one
  bit set; a good read of that sector, and a read that ends in a SCSI error.
\<close>

definition generic_pass :: dump_config where
  "generic_pass =
     \<lparr>cfg_refine = False, cfg_asus = False, cfg_plextor = False, cfg_skip_ranges = [],
      cfg_error_ranges = [(30000, 31850)], cfg_lba_end = 60000\<rparr>"

definition asus_pass :: dump_config where
  "asus_pass =
     \<lparr>cfg_refine = False, cfg_asus = True, cfg_plextor = False, cfg_skip_ranges = [],
      cfg_error_ranges = [(30000, 31850)], cfg_lba_end = 60000\<rparr>"

definition c2_sector :: raw_sector where
  "c2_sector =
     \<lparr>raw_data = replicate 588 0, raw_c2 = 0x80 # replicate 293 0, raw_subcode = replicate 96 0\<rparr>"

definition good_read :: sector_input where
  "good_read =
     \<lparr>in_asus_cache = [c2_sector], in_refine_read = False, in_status_code = 0, in_slow = False,
      in_sector = c2_sector, in_state_file = [], in_data_file = []\<rparr>"

definition failed_read :: sector_input where
  "failed_read =
     \<lparr>in_asus_cache = [], in_refine_read = False, in_status_code = 2, in_slow = False,
      in_sector = c2_sector, in_state_file = [], in_data_file = []\<rparr>"

text \<open>The same pass on a Plextor drive, and a good read of the sector that took more than
  the slow sector timeout.\<close>

definition plextor_pass :: dump_config where
  "plextor_pass =
     \<lparr>cfg_refine = False, cfg_asus = False, cfg_plextor = True, cfg_skip_ranges = [],
      cfg_error_ranges = [(30000, 31850)], cfg_lba_end = 60000\<rparr>"

definition slow_read :: sector_input where
  "slow_read =
     \<lparr>in_asus_cache = [], in_refine_read = False, in_status_code = 0, in_slow = True,
      in_sector = c2_sector, in_state_file = [], in_data_file = []\<rparr>"

definition fresh_vars :: dump_vars where
  "fresh_vars =
     \<lparr>errors_scsi = 0, errors_c2 = 0, asus_leadout_buffer = [], store = False, c2_count = 0\<rparr>"

section \<open>PSX executable, serial and region (systems/psx.cc)\<close>

subsection \<open>The regular expressions of the standard library\<close>

text \<open>
  \<open>findEXE\<close> and \<open>deduceSerial\<close> call \<^verbatim>\<open>std::regex_match\<close> with the default ECMAScript
  grammar. The patterns they use are built from literal characters, \<open>.\<close> (any character
  but a line terminator), \<open>\s\<close>, a character range, \<open>^\<close> and \<open>$\<close>, sequence, alternative,
  the greedy and the lazy star, and capturing groups; \<open>r?\<close> is \<open>r|\<close> and \<open>r+\<close> is \<open>rr*\<close>.
\<close>

datatype regex =
    RChar char
  | RAny
  | RSpace
  | RRange char char
  | RBegin
  | REnd
  | REmpty
  | RSeq regex regex
  | RAlt regex regex
  | RStar bool regex
  | RGroup nat regex

text \<open>
  The matcher is the backtracking one of the ECMAScript specification, in continuation
  style: a state is the position, the rest of the input and the captures so far; a
  continuation takes the state after a match and returns the final captures, or \<open>None\<close>
  to ask for the next alternative. An alternative tries its left side first; a greedy
  star tries one more turn before it leaves, a lazy star leaves first; a turn of a star
  must consume input, so the length of the rest bounds the number of turns.
\<close>

type_synonym match_state = "nat \<times> string \<times> (nat \<times> string) list"

primrec star_loop ::
  "bool \<Rightarrow> ((match_state \<Rightarrow> (nat \<times> string) list option) \<Rightarrow> match_state \<Rightarrow> (nat \<times> string) list option)
     \<Rightarrow> (match_state \<Rightarrow> (nat \<times> string) list option) \<Rightarrow> nat
     \<Rightarrow> match_state \<Rightarrow> (nat \<times> string) list option" where
  "star_loop greedy m k 0 st = k st"
| "star_loop greedy m k (Suc n) st =
     (if greedy
      then (case m (\<lambda>st'. if length (fst (snd st')) < length (fst (snd st))
                            then star_loop greedy m k n st' else None) st of
              Some r \<Rightarrow> Some r
            | None \<Rightarrow> k st)
      else (case k st of
              Some r \<Rightarrow> Some r
            | None \<Rightarrow> m (\<lambda>st'. if length (fst (snd st')) < length (fst (snd st))
                                  then star_loop greedy m k n st' else None) st))"

definition match_char ::
  "(char \<Rightarrow> bool) \<Rightarrow> (match_state \<Rightarrow> (nat \<times> string) list option)
     \<Rightarrow> match_state \<Rightarrow> (nat \<times> string) list option" where
  "match_char p k st =
     (case fst (snd st) of
        [] \<Rightarrow> None
      | x # xs \<Rightarrow> if p x then k (Suc (fst st), xs, snd (snd st)) else None)"

definition is_space :: "char \<Rightarrow> bool" where
  "is_space c = (c \<in> set [CHR '' '', CHR 0x09, CHR 0x0A, CHR 0x0B, CHR 0x0C, CHR 0x0D])"

definition is_line_end :: "char \<Rightarrow> bool" where
  "is_line_end c = (c = CHR 0x0A \<or> c = CHR 0x0D)"

definition in_range :: "char \<Rightarrow> char \<Rightarrow> char \<Rightarrow> bool" where
  "in_range lo hi c = ((of_char lo :: nat) \<le> of_char c \<and> (of_char c :: nat) \<le> of_char hi)"

primrec rmatch ::
  "regex \<Rightarrow> (match_state \<Rightarrow> (nat \<times> string) list option)
     \<Rightarrow> match_state \<Rightarrow> (nat \<times> string) list option" where
  "rmatch (RChar c) k = match_char (\<lambda>x. x = c) k"
| "rmatch RAny k = match_char (\<lambda>x. \<not> is_line_end x) k"
| "rmatch RSpace k = match_char is_space k"
| "rmatch (RRange lo hi) k = match_char (in_range lo hi) k"
| "rmatch RBegin k = (\<lambda>st. if fst st = 0 then k st else None)"
| "rmatch REnd k = (\<lambda>st. if fst (snd st) = [] then k st else None)"
| "rmatch REmpty k = k"
| "rmatch (RSeq a b) k = rmatch a (rmatch b k)"
| "rmatch (RAlt a b) k =
     (\<lambda>st. case rmatch a k st of Some r \<Rightarrow> Some r | None \<Rightarrow> rmatch b k st)"
| "rmatch (RStar greedy a) k = (\<lambda>st. star_loop greedy (rmatch a) k (length (fst (snd st))) st)"
| "rmatch (RGroup n a) k =
     (\<lambda>st. rmatch a
        (\<lambda>st'. k (fst st', fst (snd st'),
                   (n, take (fst st' - fst st) (fst (snd st))) # snd (snd st'))) st)"

text \<open>
  \<^verbatim>\<open>std::regex_match(s, matches, re)\<close>: the whole of \<open>s\<close> must match. On success
  \<open>matches\<close> has one entry for the whole match and one for each of the \<open>marks\<close> groups (the
  empty string for a group that took no part); on failure it is empty, here \<open>None\<close>.
\<close>

definition regex_match :: "regex \<Rightarrow> nat \<Rightarrow> string \<Rightarrow> string list option" where
  "regex_match re marks s =
     (case rmatch re (\<lambda>st. if fst (snd st) = [] then Some (snd (snd st)) else None) (0, s, []) of
        None \<Rightarrow> None
      | Some caps \<Rightarrow>
          Some (s # map (\<lambda>n. case map_of caps n of None \<Rightarrow> [] | Some g \<Rightarrow> g) [1..<Suc marks]))"

definition rseq :: "regex list \<Rightarrow> regex" where
  "rseq rs = foldr RSeq rs REmpty"

definition ropt :: "regex \<Rightarrow> regex" where
  "ropt r = RAlt r REmpty"

definition rplus :: "regex \<Rightarrow> regex" where
  "rplus r = RSeq r (RStar True r)"

definition rlit :: "string \<Rightarrow> regex" where
  "rlit s = rseq (map RChar s)"

subsection \<open>findEXE, deduceSerial, detectRegion\<close>

abbreviation backslash :: char where
  "backslash \<equiv> CHR 0x5C"

text \<open>\<^verbatim>\<open>^\s*BOOT.*=\s*cdrom.?:\\*(.*?)(?:;.*\s*|\s*$)\<close>\<close>

definition boot_regex :: regex where
  "boot_regex =
     rseq [RBegin, RStar True RSpace, rlit ''BOOT'', RStar True RAny, RChar CHR ''='',
           RStar True RSpace, rlit ''cdrom'', ropt RAny, RChar CHR '':'',
           RStar True (RChar backslash),
           RGroup 1 (RStar False RAny),
           RAlt (rseq [RChar CHR '';'', RStar True RAny, RStar True RSpace])
                (rseq [RStar True RSpace, REnd])]"

text \<open>\<^verbatim>\<open>(.*\\)*([A-Z]*)(_|-)?([A-Z]?[0-9]+)\.([0-9]+[A-Z]?)\<close>\<close>

definition serial_regex :: regex where
  "serial_regex =
     rseq [RStar True (RGroup 1 (rseq [RStar True RAny, RChar backslash])),
           RGroup 2 (RStar True (RRange CHR ''A'' CHR ''Z'')),
           ropt (RGroup 3 (RAlt (RChar CHR ''_'') (RChar CHR ''-''))),
           RGroup 4 (rseq [ropt (RRange CHR ''A'' CHR ''Z''), rplus (RRange CHR ''0'' CHR ''9'')]),
           RChar CHR ''.'',
           RGroup 5 (rseq [rplus (RRange CHR ''0'' CHR ''9''), ropt (RRange CHR ''A'' CHR ''Z'')])]"

text \<open>
  Modelled from the spec: \<open>str_uppercase\<close> is declared in a header that is not among the
  sources; it maps the letters \<open>a\<close> to \<open>z\<close> to upper case.
\<close>

definition str_uppercase :: "string \<Rightarrow> string" where
  "str_uppercase s =
     map (\<lambda>c. if in_range CHR ''a'' CHR ''z'' c then char_of (of_char c - (32 :: nat)) else c) s"

text \<open>\<^verbatim>\<open>while(std::getline(ss, line))\<close>: the lines of the file, cut at each line feed; no line
  after a final line feed.\<close>

fun getlines :: "string \<Rightarrow> string \<Rightarrow> string list" where
  "getlines line [] = (if line = [] then [] else [line])"
| "getlines line (c # cs) =
     (if c = CHR 0x0A then line # getlines [] cs else getlines (line @ [c]) cs)"

text \<open>The loop over the lines: the first line that matches gives the path.\<close>

fun boot_path :: "string list \<Rightarrow> string" where
  "boot_path [] = []"
| "boot_path (line # rest) =
     (case regex_match boot_regex 1 line of
        Some matches \<Rightarrow>
          (if length matches = 2 then str_uppercase (matches ! 1) else boot_path rest)
      | None \<Rightarrow> boot_path rest)"

text \<open>\<open>findEXE\<close>, on the content of \<open>SYSTEM.CNF\<close> (\<open>None\<close> when the file is absent) and the
  name of \<open>PSX.EXE\<close> at the root (\<open>None\<close> when absent).\<close>

definition findEXE :: "string option \<Rightarrow> string option \<Rightarrow> string" where
  "findEXE system_cnf psx_exe =
     (case system_cnf of
        Some data \<Rightarrow> boot_path (getlines [] data)
      | None \<Rightarrow> (case psx_exe of Some name \<Rightarrow> name | None \<Rightarrow> []))"

definition deduceSerial :: "string \<Rightarrow> string \<times> string" where
  "deduceSerial exe_path =
     (case regex_match serial_regex 5 exe_path of
        None \<Rightarrow> ([], [])
      | Some matches \<Rightarrow>
          (if length matches = 6
           then (let first = matches ! 2; second = matches ! 4 @ matches ! 5
                 in if first = [] \<and> second = ''907127001'' then (''LSP'', second)
                    else if first = ''PAR'' \<and> second = ''90001'' then ([], [])
                    else (first, second))
           else ([], [])))"

definition detectRegion :: "string \<Rightarrow> string" where
  "detectRegion prefix =
     (if prefix \<in> set [''ESPM'', ''PAPX'', ''PCPX'', ''PDPX'', ''SCPM'', ''SCPS'', ''SCZS'',
                        ''SIPS'', ''SLKA'', ''SLPM'', ''SLPS'']
      then ''Japan''
      else if prefix \<in> set [''LSP'', ''PEPX'', ''SCUS'', ''SLUS'', ''SLUSP'']
      then ''USA''
      else if prefix \<in> set [''PUPX'', ''SCED'', ''SCES'', ''SLED'', ''SLES'']
      then ''Europe''
      else [])"

text \<open>The serial line of the report, \<^verbatim>\<open>fmt::format("  serial: {}-{}", first, second)\<close>,
  printed when both parts are non-empty: the text after the label.\<close>

definition serial_text :: "string \<times> string \<Rightarrow> string option" where
  "serial_text serial =
     (if fst serial \<noteq> [] \<and> snd serial \<noteq> [] then Some (fst serial @ ''-'' @ snd serial)
      else None)"

definition boot_line :: string where
  "boot_line = ''BOOT = cdrom:'' @ [backslash] @ ''SCUS_944.23;1''"

text \<open>A \<open>SYSTEM.CNF\<close> of three lines with the boot line in the middle.\<close>

definition sample_system_cnf :: string where
  "sample_system_cnf =
     ''TCB = 4'' @ [CHR 0x0A] @ boot_line @ [CHR 0x0A] @ ''EVENT = 10'' @ [CHR 0x0A]"

section \<open>Progress percentage (redumper.cc, percentage)\<close>

text \<open>
  \<^verbatim>\<open>uint32_t percentage(int32_t value, uint32_t value_max)\<close>.
  Both arguments are 32-bit words; \<open>value\<close> is read as two's complement for the sign
  test and is converted to \<open>uint32_t\<close> for the comparison and for the division (the
  usual arithmetic conversions of \<open>int\<close> against \<open>unsigned\<close>). The product
  \<open>value * 100\<close> is the 32-bit one, so it wraps.
\<close>

definition percentage :: "32 word \<Rightarrow> 32 word \<Rightarrow> 32 word" where
  "percentage val value_max =
     (if val <s 0 then 0
      else if value_max = 0 \<or> value_max \<le> val then 100
      else (val * 100) div value_max)"

section \<open>LibCrypt: sixteen or thirty-two corrupted sectors\<close>

lemma libcrypt_candidates_length:
  "length (libcrypt_candidates q_valid lba_end bs)
     = 2 * length (filter (\<lambda>b. b < lba_end \<and> b + 5 < lba_end \<and> \<not> q_valid b \<and> \<not> q_valid (b + 5)) bs)"
  by (induction bs) (auto simp: Let_def)

lemma track_lba_count_50000: "track_lba_count 117600000 = 50000"
  by (simp add: track_lba_count_def)

lemma libcrypt_base_count_all: "libcrypt_base_count (q_valid_above 100000) 50000 = 32"
  by (simp add: libcrypt_base_count_def LIBCRYPT_SECTORS_BASE_def q_valid_above_def)

lemma libcrypt_base_count_first8: "libcrypt_base_count (q_valid_above 15000) 50000 = 8"
  by (simp add: libcrypt_base_count_def LIBCRYPT_SECTORS_BASE_def q_valid_above_def)

lemma libcrypt_base_count_first16: "libcrypt_base_count (q_valid_above 20000) 50000 = 16"
  by (simp add: libcrypt_base_count_def LIBCRYPT_SECTORS_BASE_def q_valid_above_def)

lemma detectLibCrypt_flag:
  "fst (detectLibCrypt q_valid track_size)
     = (2 * libcrypt_base_count q_valid (track_lba_count track_size) \<in> LIBCRYPT_SECTORS_COUNT)"
  by (simp add: detectLibCrypt_def Let_def libcrypt_candidates_length libcrypt_base_count_def)

lemma detectLibCrypt_report:
  "fst (detectLibCrypt q_valid track_size) \<Longrightarrow>
   length (snd (detectLibCrypt q_valid track_size))
     = 2 * libcrypt_base_count q_valid (track_lba_count track_size)"
  by (simp add: detectLibCrypt_def Let_def libcrypt_candidates_length libcrypt_base_count_def
      split: if_splits)

text \<open>
  Claim C2, as the code has it. Every qualifying base adds two candidates, \<open>base\<close> and
  \<open>base + 5\<close>, and the flag tests the number of candidates against \<open>{16, 32}\<close>. So the
  detector reports LibCrypt if and only if the number of bases for which \<open>base\<close> and
  \<open>base + 5\<close> both lie before the end of the track and both have an invalid Q is exactly
  8 or exactly 16; the report then has 16 or 32 lines.
\<close>

theorem detectLibCrypt_iff:
  "fst (detectLibCrypt q_valid track_size)
     = (libcrypt_base_count q_valid (track_lba_count track_size) = 8
        \<or> libcrypt_base_count q_valid (track_lba_count track_size) = 16)
   \<and> (fst (detectLibCrypt q_valid track_size) \<longrightarrow>
        length (snd (detectLibCrypt q_valid track_size))
          = 2 * libcrypt_base_count q_valid (track_lba_count track_size))"
proof -
  have "fst (detectLibCrypt q_valid track_size)
     = (libcrypt_base_count q_valid (track_lba_count track_size) = 8
        \<or> libcrypt_base_count q_valid (track_lba_count track_size) = 16)"
    unfolding detectLibCrypt_flag LIBCRYPT_SECTORS_COUNT_def by auto
  then show ?thesis using detectLibCrypt_report by blast
qed

theorem detectLibCrypt_iff_witness:
  "fst (detectLibCrypt (q_valid_above 20000) 117600000)
   \<and> length (snd (detectLibCrypt (q_valid_above 20000) 117600000)) = 32"
  using detectLibCrypt_iff [of "q_valid_above 20000" 117600000]
  by (simp add: track_lba_count_50000 libcrypt_base_count_first16)

text \<open>
  Claim C2 as stated counts bases against 16 and 32. On a track of 50000 sectors, with
  all 32 bases qualifying the detector reports no LibCrypt (64 candidates), and with
  exactly the first 8 bases qualifying it reports LibCrypt.
\<close>

theorem detectLibCrypt_counterexample:
  "libcrypt_base_count (q_valid_above 100000) (track_lba_count 117600000) = 32
   \<and> \<not> fst (detectLibCrypt (q_valid_above 100000) 117600000)
   \<and> libcrypt_base_count (q_valid_above 15000) (track_lba_count 117600000) = 8
   \<and> fst (detectLibCrypt (q_valid_above 15000) 117600000)"
  by (simp add: detectLibCrypt_flag LIBCRYPT_SECTORS_COUNT_def track_lba_count_50000
      libcrypt_base_count_all libcrypt_base_count_first8)

section \<open>A fake TOC is one whose last track ends at a negative LBA\<close>

lemma early_end_last_track:
  "last_track early_end_toc = Some \<lparr>track_number = 1, track_control = 4,
      track_indices = [0], track_lba_start = - 150, track_lba_end = - 100\<rparr>"
  by (simp add: last_track_def early_end_toc_def)

text \<open>
  Claim C3, as the code has it. For every TOC with a last track \<open>t\<close> of its last session,
  the dump engine declares a fake TOC, and keeps the default disc length
  \<open>MSF_to_LBA(MSF{74,0,0}) = 332850\<close>, exactly when \<open>t.lba_end < 0\<close>; otherwise \<open>lba_end\<close> is
  \<open>t.lba_end\<close>. The drive's \<open>pregap_start\<close> plays no part.
\<close>

theorem fake_toc_negative_end:
  assumes "last_track toc = Some t"
  shows "toc_lba_end toc
       = Some (track_lba_end t < 0, if track_lba_end t < 0 then 332850 else track_lba_end t)"
  using assms by (simp add: toc_lba_end_def MSF_to_LBA_def)

theorem fake_toc_negative_end_witness:
  "last_track early_end_toc \<noteq> None \<and> toc_lba_end early_end_toc = Some (True, 332850)"
  using fake_toc_negative_end [OF early_end_last_track] early_end_last_track by simp

text \<open>
  Claim C3 as stated tests \<open>lba_end \<le> lba_start\<close>. With \<open>pregap_start = -150\<close> and a last
  track that ends at \<open>-100\<close> that test fails, and the code declares a fake TOC.
\<close>

theorem fake_toc_counterexample:
  "toc_lba_end early_end_toc = Some (True, 332850) \<and> \<not> fake_toc_spec (- 150) early_end_toc"
  by (simp add: toc_lba_end_def fake_toc_spec_def early_end_last_track MSF_to_LBA_def)

section \<open>The refine merge keeps the better sample\<close>

lemma State_less_simps [simp]:
  "ERROR_SKIP < ERROR_C2" "ERROR_C2 < SUCCESS_C2_OFF" "SUCCESS_C2_OFF < SUCCESS_SCSI_OFF"
  "SUCCESS_SCSI_OFF < SUCCESS" "ERROR_C2 < SUCCESS" "SUCCESS_C2_OFF < SUCCESS"
  "ERROR_SKIP < SUCCESS" "ERROR_SKIP < SUCCESS_C2_OFF"
  by (simp_all add: less_State_def)

lemma refine_merge_upto_Suc:
  "refine_merge_upto (Suc n) sf df st dat
     = refine_merge_step sf df n (refine_merge_upto n sf df st dat)"
  by (simp add: refine_merge_upto_def)

lemma refine_merge_step_state:
  "sector_state (refine_merge_step sf df i v)
     = (if sf ! i > sector_state v ! i then (sector_state v)[i := sf ! i] else sector_state v)"
  by (auto simp: refine_merge_step_def Let_def less_State_def)

lemma refine_merge_step_data:
  "sector_data (refine_merge_step sf df i v)
     = (if sf ! i > sector_state v ! i then (sector_data v)[i := df ! i] else sector_data v)"
  by (auto simp: refine_merge_step_def Let_def less_State_def)

lemma refine_merge_step_update:
  "update (refine_merge_step sf df i v) = (update v \<or> sector_state v ! i > sf ! i)"
  by (auto simp: refine_merge_step_def Let_def less_State_def)

lemma refine_merge_upto_length:
  "length (sector_state (refine_merge_upto n sf df st dat)) = length st
   \<and> length (sector_data (refine_merge_upto n sf df st dat)) = length dat"
proof (induction n)
  case 0
  then show ?case by (simp add: refine_merge_upto_def)
next
  case (Suc n)
  then show ?case
    by (simp add: refine_merge_upto_Suc refine_merge_step_state refine_merge_step_data)
qed

lemma refine_merge_upto_state:
  assumes "i < length st"
  shows "sector_state (refine_merge_upto n sf df st dat) ! i
       = (if i < n then max (sf ! i) (st ! i) else st ! i)"
proof (induction n)
  case 0
  then show ?case by (simp add: refine_merge_upto_def)
next
  case (Suc n)
  let ?v = "refine_merge_upto n sf df st dat"
  have len: "length (sector_state ?v) = length st"
    using refine_merge_upto_length by blast
  show ?case
  proof (cases "i = n")
    case True
    with Suc assms len show ?thesis
      by (auto simp: refine_merge_upto_Suc refine_merge_step_state max_def)
  next
    case False
    with Suc assms len show ?thesis
      by (simp add: refine_merge_upto_Suc refine_merge_step_state less_Suc_eq)
  qed
qed

lemma refine_merge_upto_data:
  assumes "i < length st" "length dat = length st"
  shows "sector_data (refine_merge_upto n sf df st dat) ! i
       = (if i < n \<and> sf ! i > st ! i then df ! i else dat ! i)"
proof (induction n)
  case 0
  then show ?case by (simp add: refine_merge_upto_def)
next
  case (Suc n)
  let ?v = "refine_merge_upto n sf df st dat"
  have len: "length (sector_data ?v) = length st"
    using refine_merge_upto_length assms(2) by metis
  show ?case
  proof (cases "i = n")
    case True
    have "sector_state ?v ! n = st ! n"
      using refine_merge_upto_state [of n st n sf df dat] assms True by simp
    with True Suc assms len show ?thesis
      by (simp add: refine_merge_upto_Suc refine_merge_step_data)
  next
    case False
    with Suc assms len show ?thesis
      by (simp add: refine_merge_upto_Suc refine_merge_step_data less_Suc_eq)
  qed
qed

lemma refine_merge_upto_update:
  assumes "n \<le> length st"
  shows "update (refine_merge_upto n sf df st dat) = (\<exists>j<n. st ! j > sf ! j)"
  using assms
proof (induction n)
  case 0
  then show ?case by (simp add: refine_merge_upto_def)
next
  case (Suc n)
  have "sector_state (refine_merge_upto n sf df st dat) ! n = st ! n"
    using refine_merge_upto_state [of n st n sf df dat] Suc.prems by simp
  with Suc show ?case
    by (auto simp: refine_merge_upto_Suc refine_merge_step_update less_Suc_eq)
qed

lemma tie_lengths:
  "length tie_state_file = CD_DATA_SIZE_SAMPLES" "length tie_data_file = CD_DATA_SIZE_SAMPLES"
  "length tie_state_new = CD_DATA_SIZE_SAMPLES" "length tie_data_new = CD_DATA_SIZE_SAMPLES"
  by (simp_all add: tie_state_file_def tie_data_file_def tie_state_new_def tie_data_new_def)

lemma tie_values:
  "tie_state_file ! 0 = SUCCESS" "tie_state_file ! Suc 0 = ERROR_C2"
  "tie_state_new ! 0 = SUCCESS" "tie_state_new ! Suc 0 = SUCCESS"
  "tie_data_file ! 0 = 0x11111111" "tie_data_new ! 0 = 0x22222222"
  "tie_data_file ! Suc 0 = 0x11111111" "tie_data_new ! Suc 0 = 0x22222222"
  by (simp_all add: tie_state_file_def tie_data_file_def tie_state_new_def tie_data_new_def)

lemma tie_update: "update (refine_merge tie_state_file tie_data_file tie_state_new tie_data_new)"
proof -
  have "Suc 0 < CD_DATA_SIZE_SAMPLES \<and> tie_state_new ! Suc 0 > tie_state_file ! Suc 0"
    by (simp add: tie_values)
  then have "\<exists>j<CD_DATA_SIZE_SAMPLES. tie_state_new ! j > tie_state_file ! j" by blast
  then show ?thesis
    unfolding refine_merge_def
    by (simp only: refine_merge_upto_update tie_lengths order_refl)
qed

text \<open>
  Claim C4, as the code has it. For every refine merge step and every sample \<open>i\<close> of the
  sector, the merged state is the maximum of the state stored in the file and the state
  of the new read (so it is at least both), also in the stream after the step. The merged
  data word is the file's word where the file's state is strictly greater and the new
  read's word otherwise: on a tie the new read's word stays in the buffer. The buffer is
  written back exactly when some sample of the new read has a strictly greater state;
  otherwise the stream keeps the file's words.
\<close>

theorem refine_merge_sample:
  assumes "length sector_state_file = CD_DATA_SIZE_SAMPLES"
    and "length sector_data_file = CD_DATA_SIZE_SAMPLES"
    and "length new_state = CD_DATA_SIZE_SAMPLES"
    and "length new_data = CD_DATA_SIZE_SAMPLES"
    and "i < CD_DATA_SIZE_SAMPLES"
  shows "sector_state (refine_merge sector_state_file sector_data_file new_state new_data) ! i
           = max (sector_state_file ! i) (new_state ! i)
       \<and> sector_data (refine_merge sector_state_file sector_data_file new_state new_data) ! i
           = (if sector_state_file ! i > new_state ! i then sector_data_file ! i else new_data ! i)
       \<and> update (refine_merge sector_state_file sector_data_file new_state new_data)
           = (\<exists>j<CD_DATA_SIZE_SAMPLES. new_state ! j > sector_state_file ! j)
       \<and> fst (refine_write_back sector_state_file sector_data_file new_state new_data) ! i
           = max (sector_state_file ! i) (new_state ! i)
       \<and> snd (refine_write_back sector_state_file sector_data_file new_state new_data) ! i
           = (if (\<exists>j<CD_DATA_SIZE_SAMPLES. new_state ! j > sector_state_file ! j)
                 \<and> \<not> sector_state_file ! i > new_state ! i
              then new_data ! i else sector_data_file ! i)"
proof -
  let ?v = "refine_merge sector_state_file sector_data_file new_state new_data"
  have s: "sector_state ?v ! i = max (sector_state_file ! i) (new_state ! i)"
    unfolding refine_merge_def using assms by (simp add: refine_merge_upto_state)
  have d: "sector_data ?v ! i
      = (if sector_state_file ! i > new_state ! i then sector_data_file ! i else new_data ! i)"
    unfolding refine_merge_def using assms by (simp add: refine_merge_upto_data)
  have u: "update ?v = (\<exists>j<CD_DATA_SIZE_SAMPLES. new_state ! j > sector_state_file ! j)"
    unfolding refine_merge_def using assms by (simp add: refine_merge_upto_update)
  have ws: "fst (refine_write_back sector_state_file sector_data_file new_state new_data) ! i
      = max (sector_state_file ! i) (new_state ! i)"
  proof (cases "update ?v")
    case True
    then show ?thesis using s by (simp add: refine_write_back_def Let_def)
  next
    case False
    then have "\<not> new_state ! i > sector_state_file ! i" using u assms(5) by blast
    then have "max (sector_state_file ! i) (new_state ! i) = sector_state_file ! i"
      by (simp add: max_def)
    then show ?thesis using False by (simp add: refine_write_back_def Let_def)
  qed
  have wd: "snd (refine_write_back sector_state_file sector_data_file new_state new_data) ! i
      = (if (\<exists>j<CD_DATA_SIZE_SAMPLES. new_state ! j > sector_state_file ! j)
            \<and> \<not> sector_state_file ! i > new_state ! i
         then new_data ! i else sector_data_file ! i)"
    using d u by (cases "update ?v") (auto simp: refine_write_back_def Let_def)
  show ?thesis using s d u ws wd by blast
qed

theorem refine_merge_sample_witness:
  "sector_state (refine_merge tie_state_file tie_data_file tie_state_new tie_data_new) ! Suc 0
     = SUCCESS
   \<and> sector_data (refine_merge tie_state_file tie_data_file tie_state_new tie_data_new) ! Suc 0
     = 0x22222222
   \<and> fst (refine_write_back tie_state_file tie_data_file tie_state_new tie_data_new) ! Suc 0
     = SUCCESS"
  using refine_merge_sample [OF tie_lengths, of "Suc 0"]
  by (simp add: tie_values max_def less_State_def less_eq_State_def)

text \<open>
  Claim C4 as stated says that on a tie the file's data word is kept. At sample 0 of the
  sector below both states are \<open>SUCCESS\<close>, the file holds \<open>0x11111111\<close>, and the merged
  buffer and the stream after the step hold the new read's \<open>0x22222222\<close>.
\<close>

theorem refine_merge_tie_counterexample:
  "tie_state_file ! 0 = tie_state_new ! 0
   \<and> tie_data_file ! 0 = 0x11111111
   \<and> sector_data (refine_merge tie_state_file tie_data_file tie_state_new tie_data_new) ! 0
       = 0x22222222
   \<and> snd (refine_write_back tie_state_file tie_data_file tie_state_new tie_data_new) ! 0
       = 0x22222222"
proof -
  have d: "sector_data (refine_merge tie_state_file tie_data_file tie_state_new tie_data_new) ! 0
       = 0x22222222"
    unfolding refine_merge_def
    by (simp add: refine_merge_upto_data tie_lengths tie_values)
  then have w: "snd (refine_write_back tie_state_file tie_data_file tie_state_new tie_data_new) ! 0
       = 0x22222222"
    using tie_update by (simp add: refine_write_back_def Let_def)
  show ?thesis using d w by (simp add: tie_values)
qed

section \<open>The Plextor lead-in commit works by sector\<close>

lemma leadin_improves_iff: "leadin_improves ss = (\<exists>s\<in>set ss. s < SUCCESS_C2_OFF)"
  by (induction ss) auto

lemma leadin_improves_replicate [simp]: "\<not> leadin_improves (replicate n SUCCESS_C2_OFF)"
  by (simp add: leadin_improves_iff)

lemma leadin_store_entry_state:
  "fs_state (leadin_store_entry q_valid j e fs) k
     = (if j = k \<and> status_code e = 0 \<and> leadin_improves (fs_state fs k)
        then replicate CD_DATA_SIZE_SAMPLES SUCCESS_C2_OFF else fs_state fs k)"
  by (simp add: leadin_store_entry_def Let_def)

lemma leadin_store_entry_scm:
  "fs_scm (leadin_store_entry q_valid j e fs) k
     = (if j = k \<and> status_code e = 0 \<and> leadin_improves (fs_state fs k)
        then entry_data e else fs_scm fs k)"
  by (simp add: leadin_store_entry_def Let_def)

lemma store_fold_sector:
  "fs_state (fold (\<lambda>(j, e). leadin_store_entry q_valid j e) ts fs) k
     = (if leadin_improves (fs_state fs k)
           \<and> find (\<lambda>(j, e). j = k \<and> status_code e = 0) ts \<noteq> None
        then replicate CD_DATA_SIZE_SAMPLES SUCCESS_C2_OFF else fs_state fs k)
   \<and> fs_scm (fold (\<lambda>(j, e). leadin_store_entry q_valid j e) ts fs) k
     = (case find (\<lambda>(j, e). j = k \<and> status_code e = 0) ts of
          None \<Rightarrow> fs_scm fs k
        | Some je \<Rightarrow> if leadin_improves (fs_state fs k) then entry_data (snd je)
                     else fs_scm fs k)"
proof (induction ts arbitrary: fs)
  case Nil
  then show ?case by simp
next
  case (Cons a ts)
  obtain j e where a: "a = (j, e)" by (cases a)
  show ?case
    unfolding a using Cons.IH [of "leadin_store_entry q_valid j e fs"]
    by (auto simp: leadin_store_entry_state leadin_store_entry_scm split: option.splits)
qed

lemma leadin_store_buffer_fold:
  "leadin_store_buffer q_valid session_start pregap_start n i es fs
     = fold (\<lambda>(j, e). leadin_store_entry q_valid j e)
         (map (\<lambda>(i, e). (session_start + (pregap_start - MSF_LBA_SHIFT)
                           - (int n - int i) - LBA_START, e))
              (zip [i..<i + length es] es)) fs"
proof (induction es arbitrary: i fs)
  case Nil
  then show ?case by simp
next
  case (Cons e es)
  have "[i..<Suc (i + length es)] = i # [Suc i..<Suc (i + length es)]"
    by (subst upt_rec) simp
  then show ?case using Cons.IH [of "Suc i"] by simp
qed

lemma leadin_store_sessions_fold:
  "leadin_store_sessions q_valid pregap_start buffers fs
     = fold (\<lambda>(j, e). leadin_store_entry q_valid j e)
         (concat (map (\<lambda>(session_start, buffer).
                         buffer_entries session_start pregap_start buffer) buffers)) fs"
proof (induction buffers arbitrary: fs)
  case Nil
  then show ?case by simp
next
  case (Cons a buffers)
  obtain session_start buffer where a: "a = (session_start, buffer)" by (cases a)
  show ?case
    unfolding a using Cons.IH
    by (simp add: leadin_store_buffer_fold [where i = 0, simplified] buffer_entries_def)
qed

text \<open>
  Claim C5, as the code has it. The lead-in commit works by sector. For every sector \<open>k\<close>:
  if some stored sample of the sector is below \<open>SUCCESS_C2_OFF\<close> and the buffers hold an
  entry without SCSI error for \<open>k\<close>, then after the commit over all sessions the data of
  the sector is the data of the first such entry and every one of its 588 states is
  \<open>SUCCESS_C2_OFF\<close>; otherwise the stored data and state of the sector are as they were.
  In particular a sector whose samples are all at or above \<open>SUCCESS_C2_OFF\<close> keeps every
  state and every data word.
\<close>

theorem leadin_commit_sector:
  "fs_state (leadin_store_sessions q_valid pregap_start buffers fs) k
     = (if (\<exists>s\<in>set (fs_state fs k). s < SUCCESS_C2_OFF)
           \<and> leadin_first_entry pregap_start buffers k \<noteq> None
        then replicate CD_DATA_SIZE_SAMPLES SUCCESS_C2_OFF else fs_state fs k)
   \<and> fs_scm (leadin_store_sessions q_valid pregap_start buffers fs) k
     = (case leadin_first_entry pregap_start buffers k of
          None \<Rightarrow> fs_scm fs k
        | Some e \<Rightarrow> if \<exists>s\<in>set (fs_state fs k). s < SUCCESS_C2_OFF then entry_data e
                    else fs_scm fs k)
   \<and> ((\<forall>s\<in>set (fs_state fs k). SUCCESS_C2_OFF \<le> s) \<longrightarrow>
        fs_state (leadin_store_sessions q_valid pregap_start buffers fs) k = fs_state fs k
        \<and> fs_scm (leadin_store_sessions q_valid pregap_start buffers fs) k = fs_scm fs k)"
proof -
  let ?ts = "concat (map (\<lambda>(session_start, buffer).
                         buffer_entries session_start pregap_start buffer) buffers)"
  have s: "fs_state (leadin_store_sessions q_valid pregap_start buffers fs) k
     = (if (\<exists>s\<in>set (fs_state fs k). s < SUCCESS_C2_OFF)
           \<and> leadin_first_entry pregap_start buffers k \<noteq> None
        then replicate CD_DATA_SIZE_SAMPLES SUCCESS_C2_OFF else fs_state fs k)"
    using store_fold_sector [of q_valid ?ts fs k]
    by (simp add: leadin_store_sessions_fold leadin_first_entry_def leadin_improves_iff)
  have d: "fs_scm (leadin_store_sessions q_valid pregap_start buffers fs) k
     = (case leadin_first_entry pregap_start buffers k of
          None \<Rightarrow> fs_scm fs k
        | Some e \<Rightarrow> if \<exists>s\<in>set (fs_state fs k). s < SUCCESS_C2_OFF then entry_data e
                    else fs_scm fs k)"
    using store_fold_sector [of q_valid ?ts fs k]
    by (simp add: leadin_store_sessions_fold leadin_first_entry_def leadin_improves_iff
        split: option.splits)
  have u: "(\<forall>s\<in>set (fs_state fs k). SUCCESS_C2_OFF \<le> s) \<longrightarrow>
        fs_state (leadin_store_sessions q_valid pregap_start buffers fs) k = fs_state fs k
        \<and> fs_scm (leadin_store_sessions q_valid pregap_start buffers fs) k = fs_scm fs k"
    unfolding s d by (auto simp: not_less [symmetric] split: option.splits)
  show ?thesis using s d u by blast
qed

lemma good_entry_first:
  "leadin_first_entry (- 75) [(- 150, [good_entry])] 45074 = Some good_entry"
  by (simp add: leadin_first_entry_def buffer_entries_def good_entry_def)

theorem leadin_commit_sector_witness:
  "fs_state (leadin_store_sessions q_accept_all (- 75) [(- 150, [good_entry])] mixed_streams) 45074
     = replicate 588 SUCCESS_C2_OFF
   \<and> fs_scm (leadin_store_sessions q_accept_all (- 75) [(- 150, [good_entry])] mixed_streams) 45074
     = replicate 588 0x22222222
   \<and> fs_state (leadin_store_sessions q_accept_all (- 75) [(- 150, [good_entry])] clean_streams) 45074
     = replicate 588 SUCCESS
   \<and> fs_scm (leadin_store_sessions q_accept_all (- 75) [(- 150, [good_entry])] clean_streams) 45074
     = replicate 588 0x11111111"
proof -
  have m: "\<exists>s\<in>set (fs_state mixed_streams 45074). s < SUCCESS_C2_OFF"
    by (simp add: mixed_streams_def less_State_def)
  have c: "\<forall>s\<in>set (fs_state clean_streams 45074). SUCCESS_C2_OFF \<le> s"
    by (simp add: clean_streams_def less_eq_State_def)
  have e: "entry_data good_entry = replicate 588 0x22222222"
    by (simp add: good_entry_def)
  show ?thesis
    using leadin_commit_sector [of q_accept_all "- 75" "[(- 150, [good_entry])]" mixed_streams 45074]
      leadin_commit_sector [of q_accept_all "- 75" "[(- 150, [good_entry])]" clean_streams 45074]
      m c e
    by (simp add: good_entry_first clean_streams_def)
qed

text \<open>
  Claim C5 as stated says that a sample whose stored state is at or above
  \<open>SUCCESS_C2_OFF\<close> keeps its state. In the sector below sample 0 is stored as \<open>SUCCESS\<close>
  and sample 1 as \<open>ERROR_C2\<close>; a good lead-in entry for this sector (first session,
  \<open>pregap_start = -75\<close>, LBA \<open>-76\<close>) overwrites the whole sector, and sample 0 drops to
  \<open>SUCCESS_C2_OFF\<close>.
\<close>

theorem leadin_commit_lowers_counterexample:
  "fs_state mixed_streams 45074 ! 0 = SUCCESS
   \<and> SUCCESS_C2_OFF \<le> fs_state mixed_streams 45074 ! 0
   \<and> fs_state (leadin_store_sessions q_accept_all (- 75) [(- 150, [good_entry])] mixed_streams)
        45074 ! 0 = SUCCESS_C2_OFF
   \<and> SUCCESS_C2_OFF < SUCCESS"
  by (simp add: leadin_store_entry_def mixed_streams_def good_entry_def q_accept_all_def
      less_eq_State_def less_State_def)

section \<open>Scrambler: the table, Process and Descramble\<close>

lemma process_with_length [simp]: "length (process_with tbl out inp n) = length out"
  by (induction n) (simp_all add: process_with_def)

lemma process_with_nth:
  "i < length out \<Longrightarrow>
   process_with tbl out inp n ! i = (if i < n then inp ! i XOR tbl ! i else out ! i)"
proof (induction n)
  case 0
  then show ?case by (simp add: process_with_def)
next
  case (Suc n)
  have len: "length (fold (\<lambda>i out. out[i := inp ! i XOR tbl ! i]) [0..<n] out) = length out"
    using process_with_length [of tbl out inp n] by (simp add: process_with_def)
  show ?case using Suc len
    by (auto simp: process_with_def nth_list_update less_Suc_eq)
qed

lemma process_with_twice:
  "process_with tbl (process_with tbl s s n) (process_with tbl s s n) n = s"
  by (rule nth_equalityI) (simp_all add: process_with_nth word_bw_assocs)

lemma process_with_closed:
  assumes "n \<le> length out" "n \<le> length inp" "n \<le> length tbl"
  shows "process_with tbl out inp n = map2 (XOR) (take n inp) (take n tbl) @ drop n out"
proof (rule nth_equalityI)
  show "length (process_with tbl out inp n)
      = length (map2 (XOR) (take n inp) (take n tbl) @ drop n out)"
    using assms by simp
next
  fix i assume "i < length (process_with tbl out inp n)"
  then have i: "i < length out" by simp
  show "process_with tbl out inp n ! i = (map2 (XOR) (take n inp) (take n tbl) @ drop n out) ! i"
    using assms i by (auto simp: process_with_nth nth_append)
qed

lemma lfsr_bytes_length [simp]: "length (lfsr_bytes n sr) = n"
  by (induction n arbitrary: sr) simp_all

lemma GenerateTable_length: "length GenerateTable = CD_DATA_SIZE"
  by (simp add: GenerateTable_def CD_DATA_SYNC_def)

lemma CD_DATA_SYNC_length: "length CD_DATA_SYNC = 12"
  by (simp add: CD_DATA_SYNC_def)

lemma GenerateTable_eq: "GenerateTable = replicate 12 0 @ lfsr_bytes 2340 0x0001"
proof -
  have "CD_DATA_SIZE - 12 = 2340" by simp
  then show ?thesis unfolding GenerateTable_def CD_DATA_SYNC_length by (rule arg_cong)
qed

lemma GenerateTable_sync_zero:
  assumes "i < 12"
  shows "GenerateTable ! i = 0"
proof -
  have "GenerateTable ! i = replicate 12 (0 :: 8 word) ! i"
    using assms by (simp only: GenerateTable_eq nth_append length_replicate if_True)
  then show ?thesis using assms by (simp only: nth_replicate)
qed

lemma take_lfsr_bytes: "k \<le> n \<Longrightarrow> take k (lfsr_bytes n sr) = lfsr_bytes k sr"
proof (induction k arbitrary: n sr)
  case 0
  then show ?case by simp
next
  case (Suc k)
  then obtain m where "n = Suc m" by (cases n) auto
  with Suc show ?case by simp
qed

lemma funpow8: "(f ^^ 8) x = f (f (f (f (f (f (f (f x)))))))"
  by (simp add: eval_nat_numeral)

lemma lfsr_bytes_unfold:
  "0 < n \<Longrightarrow> lfsr_bytes n sr = ucast sr # lfsr_bytes (n - 1) ((lfsr_step ^^ 8) sr)"
  by (cases n) simp_all

lemma lfsr_bytes_8: "lfsr_bytes 8 1 = [0x01, 0x80, 0x00, 0x60, 0x00, 0x28, 0x00, 0x1E]"
  by (simp add: lfsr_bytes_unfold funpow8 lfsr_step_def)

lemma replicate_12: "replicate 12 x = [x, x, x, x, x, x, x, x, x, x, x, x]"
  by (simp add: eval_nat_numeral)

lemma GenerateTable_prefix:
  "take 20 GenerateTable
     = [0, 0, 0, 0, 0, 0, 0, 0, 0, 0, 0, 0, 0x01, 0x80, 0x00, 0x60, 0x00, 0x28, 0x00, 0x1E]"
proof -
  have "take 20 GenerateTable = replicate 12 0 @ take 8 (lfsr_bytes 2340 1)"
    by (simp only: GenerateTable_eq take_append length_replicate take_replicate) simp
  also have "\<dots> = replicate 12 0 @ lfsr_bytes 8 1"
    by (simp add: take_lfsr_bytes)
  finally show ?thesis
    by (simp add: lfsr_bytes_8 replicate_12)
qed

lemma Process_small:
  assumes "sz \<le> 20" "sz \<le> length s"
  shows "Process s s sz = map2 (XOR) (take sz s)
           (take sz [0, 0, 0, 0, 0, 0, 0, 0, 0, 0, 0, 0, 0x01, 0x80, 0x00, 0x60, 0x00, 0x28, 0x00, 0x1E])
         @ drop sz s"
proof -
  have "take sz GenerateTable = take sz (take 20 GenerateTable)"
    using assms(1) by (simp add: min_def)
  moreover have "sz \<le> length GenerateTable"
    using assms(1) by (simp add: GenerateTable_length)
  ultimately show ?thesis
    using assms(2) by (simp add: Process_def process_with_closed GenerateTable_prefix)
qed

lemma replicate_20: "replicate 20 x = [x, x, x, x, x, x, x, x, x, x, x, x, x, x, x, x, x, x, x, x]"
  by (simp add: eval_nat_numeral)

lemma short_check_Process:
  "Process short_check_sector short_check_sector 17
     = [0x00, 0xFF, 0xFF, 0xFF, 0xFF, 0xFF, 0xFF, 0xFF, 0xFF, 0xFF, 0xFF, 0x00,
        0x00, 0x00, 0x00, 0x00, 0x00]"
  by (simp add: Process_small short_check_sector_def)

lemma short_check_not_zeroed: "\<not> is_zeroed short_check_sector 17"
  by (simp add: is_zeroed_def short_check_sector_def)

text \<open>
  Claim C6. \<open>Process\<close> is an involution on a 2352-byte buffer \<open>b\<close>:
  \<open>Process(Process(b)) = b\<close>; it leaves the first 12 bytes (the sync) as they are, and the
  generated table is zero on these 12 bytes.
\<close>

theorem Process_involution:
  assumes "length b = CD_DATA_SIZE"
  shows "Process (Process b b CD_DATA_SIZE) (Process b b CD_DATA_SIZE) CD_DATA_SIZE = b
       \<and> take 12 (Process b b CD_DATA_SIZE) = take 12 b
       \<and> take 12 GenerateTable = replicate 12 0"
proof -
  have inv: "Process (Process b b CD_DATA_SIZE) (Process b b CD_DATA_SIZE) CD_DATA_SIZE = b"
    unfolding Process_def by (rule process_with_twice)
  have sync: "take 12 (Process b b CD_DATA_SIZE) = take 12 b"
  proof (rule nth_equalityI)
    show "length (take 12 (Process b b CD_DATA_SIZE)) = length (take 12 b)"
      by (simp add: Process_def)
  next
    fix i assume "i < length (take 12 (Process b b CD_DATA_SIZE))"
    then have i: "i < 12" "i < length b" by (simp_all add: Process_def)
    then show "take 12 (Process b b CD_DATA_SIZE) ! i = take 12 b ! i"
      using assms by (simp add: Process_def process_with_nth GenerateTable_sync_zero)
  qed
  have tbl: "take 12 GenerateTable = replicate 12 0"
    by (simp only: GenerateTable_eq take_append length_replicate take_replicate) simp
  show ?thesis using inv sync tbl by blast
qed

theorem Process_involution_witness:
  "Process (Process (replicate 2352 0x55) (replicate 2352 0x55) 2352)
           (Process (replicate 2352 0x55) (replicate 2352 0x55) 2352) 2352 = replicate 2352 0x55
   \<and> take 12 (Process (replicate 2352 0x55) (replicate 2352 0x55) 2352) = replicate 12 0x55"
  using Process_involution [of "replicate 2352 0x55"] by simp

text \<open>
  Claim C7. Whenever \<open>Descramble\<close> returns false, for any buffer, size and optional lba,
  the buffer is returned with the bytes it had before the call: either nothing was
  transformed (zeroed buffer, or fewer than 16 bytes) or the second \<open>Process\<close> undid the
  first.
\<close>

theorem Descramble_failure_restores:
  "\<not> fst (Descramble decode_address sector lba sz) \<Longrightarrow>
   snd (Descramble decode_address sector lba sz) = sector"
  by (auto simp: Descramble_def Let_def Process_def process_with_twice split: if_splits)

theorem Descramble_failure_restores_witness:
  "\<not> fst (Descramble BCDMSF_to_LBA (replicate 20 0x55) None 20)
   \<and> snd (Descramble BCDMSF_to_LBA (replicate 20 0x55) None 20) = replicate 20 0x55"
proof -
  have p: "Process (replicate 20 0x55) (replicate 20 0x55) 20
     = [0x55, 0x55, 0x55, 0x55, 0x55, 0x55, 0x55, 0x55, 0x55, 0x55, 0x55, 0x55,
        0x54, 0xD5, 0x55, 0x35, 0x55, 0x7D, 0x55, 0x4B]"
    by (simp add: Process_small replicate_20)
  have f: "\<not> fst (Descramble BCDMSF_to_LBA (replicate 20 0x55) None 20)"
    unfolding Descramble_def p
    by (simp add: is_zeroed_def replicate_20 CD_DATA_SYNC_def Let_def)
  show ?thesis
    using f Descramble_failure_restores [of BCDMSF_to_LBA "replicate 20 0x55" None 20] by simp
qed

lemma Descramble_success_checked:
  assumes "\<not> is_zeroed sector sz" "16 \<le> sz"
  shows "fst (Descramble decode_address sector lba sz)
       = descramble_accepts decode_address (Process sector sector sz) lba (min (sz - 16) 2336)"
  using assms
  by (auto simp: Descramble_def descramble_accepts_def is_zeroed_def Let_def
           split: option.splits)

lemma Process_length [simp]: "length (Process out inp sz) = length out"
  by (simp add: Process_def)

text \<open>
  Claim C8. For a buffer of \<open>size \<ge> 16\<close> bytes that is not zeroed, \<open>Descramble\<close> returns
  true exactly when, on the descrambled bytes, (a) an lba was supplied and the BCD MSF
  header decodes to exactly that LBA, or (b) the sync matches and the mode is 1 or 2, or
  (c) the sync matches, the mode is 0 and the 2336-byte user data area is all zero. The
  code looks at \<open>min (size - 16) 2336\<close> bytes of user data, which for a buffer of \<open>size\<close>
  bytes is all that the buffer holds of this area.
\<close>

theorem Descramble_success_iff:
  assumes "length sector = sz" "16 \<le> sz" "\<not> is_zeroed sector sz"
  shows "fst (Descramble decode_address sector lba sz)
       = descramble_accepts decode_address (Process sector sector sz) lba 2336"
proof -
  have "length (drop 16 (Process sector sector sz)) = sz - 16"
    using assms(1) by simp
  then have "take (min (sz - 16) 2336) (drop 16 (Process sector sector sz))
      = take 2336 (drop 16 (Process sector sector sz))"
    by (metis min.commute take_all_iff take_take order_refl)
  then have "descramble_accepts decode_address (Process sector sector sz) lba (min (sz - 16) 2336)
      = descramble_accepts decode_address (Process sector sector sz) lba 2336"
    by (simp add: descramble_accepts_def)
  then show ?thesis
    using Descramble_success_checked [OF assms(3) assms(2)] by simp
qed

theorem Descramble_success_iff_witness:
  "length short_check_sector = 17 \<and> (16 :: nat) \<le> 17 \<and> \<not> is_zeroed short_check_sector 17
   \<and> fst (Descramble BCDMSF_to_LBA short_check_sector None 17)
   \<and> descramble_accepts BCDMSF_to_LBA
         (Process short_check_sector short_check_sector 17) None 2336"
proof -
  have l: "length short_check_sector = 17" by (simp add: short_check_sector_def)
  have a: "descramble_accepts BCDMSF_to_LBA
         (Process short_check_sector short_check_sector 17) None 2336"
    unfolding short_check_Process by (simp add: descramble_accepts_def CD_DATA_SYNC_def)
  show ?thesis
    using Descramble_success_iff [OF l _ short_check_not_zeroed, of BCDMSF_to_LBA None]
      l a short_check_not_zeroed by simp
qed

section \<open>Error counting in the dump loop\<close>

lemma bits_count_unat: "unat (bits_count w) = length (filter (bit w) [0..<8])"
proof -
  have "length (filter (bit w) [0..<8]) \<le> 8"
    using length_filter_le [of "bit w" "[0..<8]"] by simp
  then have "length (filter (bit w) [0..<8]) mod 2 ^ 32 = length (filter (bit w) [0..<8])"
    by simp
  then show ?thesis by (simp add: bits_count_def unat_of_nat)
qed

lemma bits_count_le: "unat (bits_count w) \<le> 8"
  using length_filter_le [of "bit w" "[0..<8]"] by (simp add: bits_count_unat)

lemma bits_count_zero_iff: "bits_count w = 0 \<longleftrightarrow> w = 0"
proof -
  have "bits_count w = 0 \<longleftrightarrow> length (filter (bit w) [0..<8]) = 0"
    using unat_0_iff [of "bits_count w"] by (simp add: bits_count_unat)
  also have "\<dots> \<longleftrightarrow> (\<forall>n<8. \<not> bit w n)"
    by (auto simp: filter_empty_conv)
  also have "\<dots> \<longleftrightarrow> w = 0"
  proof
    assume a: "\<forall>n<8. \<not> bit w n"
    show "w = 0" by (rule bit_word_eqI) (use a in simp)
  next
    assume "w = 0" then show "\<forall>n<8. \<not> bit w n" by simp
  qed
  finally show ?thesis .
qed


lemma state_from_c2_upto_Suc:
  "state_from_c2_upto (Suc n) st c2 = state_from_c2_step c2 n (state_from_c2_upto n st c2)"
  by (simp add: state_from_c2_upto_def)

lemma state_from_c2_step_count:
  "snd (state_from_c2_step c2 i sc) = snd sc + bits_count (c2_quad c2 i)"
  by (simp add: state_from_c2_step_def bits_count_zero_iff [THEN iffD2])

lemma state_from_c2_upto_count:
  "n \<le> CD_DATA_SIZE_SAMPLES \<Longrightarrow>
   unat (snd (state_from_c2_upto n st c2)) = (\<Sum>i<n. unat (bits_count (c2_quad c2 i)))"
proof (induction n)
  case 0
  then show ?case by (simp add: state_from_c2_upto_def)
next
  case (Suc n)
  have b: "(\<Sum>i<n. unat (bits_count (c2_quad c2 i))) \<le> 8 * n"
    using sum_bounded_above [of "{..<n}" "\<lambda>i. unat (bits_count (c2_quad c2 i))" 8]
    by (simp add: bits_count_le mult.commute)
  have "unat (snd (state_from_c2_upto n st c2)) + unat (bits_count (c2_quad c2 n)) < 2 ^ 32"
    using Suc b bits_count_le [of "c2_quad c2 n"] by simp
  then have "unat (snd (state_from_c2_upto n st c2) + bits_count (c2_quad c2 n))
      = unat (snd (state_from_c2_upto n st c2)) + unat (bits_count (c2_quad c2 n))"
    using unat_add_lem [of "snd (state_from_c2_upto n st c2)" "bits_count (c2_quad c2 n)"]
    by simp
  then show ?case using Suc
    by (simp add: state_from_c2_upto_Suc state_from_c2_step_count)
qed

lemma state_from_c2_count_nonzero:
  "snd (state_from_c2 st c2) \<noteq> 0 \<longleftrightarrow> (\<exists>i<CD_DATA_SIZE_SAMPLES. c2_quad c2 i \<noteq> 0)"
proof -
  have "snd (state_from_c2 st c2) = 0 \<longleftrightarrow> unat (snd (state_from_c2 st c2)) = 0"
    by (simp add: unat_0_iff)
  also have "\<dots> \<longleftrightarrow> (\<Sum>i<CD_DATA_SIZE_SAMPLES. unat (bits_count (c2_quad c2 i))) = 0"
    by (simp add: state_from_c2_def state_from_c2_upto_count)
  also have "\<dots> \<longleftrightarrow> (\<forall>i<CD_DATA_SIZE_SAMPLES. c2_quad c2 i = 0)"
    by (auto simp: unat_0_iff bits_count_zero_iff)
  finally show ?thesis by blast
qed

lemma sector_obtained_dump:
  "\<not> cfg_refine cfg \<Longrightarrow>
   sector_obtained cfg inp lba initial sector v
     = v\<lparr>errors_c2 :=
           (if snd (state_from_c2 (replicate CD_DATA_SIZE_SAMPLES initial) (raw_c2 sector)) \<noteq> 0
            then errors_c2 v + 1 else errors_c2 v),
         store := True,
         c2_count := snd (state_from_c2 (replicate CD_DATA_SIZE_SAMPLES initial) (raw_c2 sector))\<rparr>"
  by (simp add: sector_obtained_def Let_def)

lemma read_block_scsi_dump:
  "\<not> cfg_refine cfg \<Longrightarrow>
   errors_scsi (read_block cfg inp lba v)
     = (if \<not> (cfg_plextor cfg \<and> in_slow inp \<and> inside_range lba (cfg_error_ranges cfg) \<noteq> None)
           \<and> in_status_code inp \<noteq> 0
           \<and> inside_range lba (cfg_error_ranges cfg) = None \<and> lba < cfg_lba_end cfg
        then errors_scsi v + 1 else errors_scsi v)"
  by (simp add: read_block_def sector_obtained_dump)

lemma read_block_c2_dump:
  "\<not> cfg_refine cfg \<Longrightarrow>
   errors_c2 (read_block cfg inp lba v)
     = (if \<not> (cfg_plextor cfg \<and> in_slow inp \<and> inside_range lba (cfg_error_ranges cfg) \<noteq> None)
           \<and> in_status_code inp = 0
           \<and> snd (state_from_c2 (replicate CD_DATA_SIZE_SAMPLES SUCCESS) (raw_c2 (in_sector inp))) \<noteq> 0
        then errors_c2 v + 1 else errors_c2 v)"
  by (simp add: read_block_def sector_obtained_dump)

lemma dump_iteration_scsi:
  "\<not> cfg_refine cfg \<Longrightarrow>
   errors_scsi (dump_iteration cfg inp lba v)
     = (if inside_range lba (cfg_skip_ranges cfg) = None
           \<and> asus_entry cfg inp lba v = None
           \<and> \<not> (cfg_plextor cfg \<and> in_slow inp \<and> inside_range lba (cfg_error_ranges cfg) \<noteq> None)
           \<and> in_status_code inp \<noteq> 0
           \<and> inside_range lba (cfg_error_ranges cfg) = None \<and> lba < cfg_lba_end cfg
        then errors_scsi v + 1 else errors_scsi v)"
  by (simp add: dump_iteration_def Let_def read_block_scsi_dump sector_obtained_dump
      split: option.splits)

lemma dump_iteration_c2_cache:
  "\<not> cfg_refine cfg \<Longrightarrow> inside_range lba (cfg_skip_ranges cfg) = None \<Longrightarrow>
   asus_entry cfg inp lba v = Some entry \<Longrightarrow>
   errors_c2 (dump_iteration cfg inp lba v)
     = (if snd (state_from_c2 (replicate CD_DATA_SIZE_SAMPLES SUCCESS_SCSI_OFF) (raw_c2 entry)) \<noteq> 0
        then errors_c2 v + 1 else errors_c2 v)"
  by (simp add: dump_iteration_def Let_def sector_obtained_dump)

lemma dump_iteration_c2_read:
  "\<not> cfg_refine cfg \<Longrightarrow> inside_range lba (cfg_skip_ranges cfg) = None \<Longrightarrow>
   asus_entry cfg inp lba v = None \<Longrightarrow>
   errors_c2 (dump_iteration cfg inp lba v)
     = (if \<not> (cfg_plextor cfg \<and> in_slow inp \<and> inside_range lba (cfg_error_ranges cfg) \<noteq> None)
           \<and> in_status_code inp = 0
           \<and> snd (state_from_c2 (replicate CD_DATA_SIZE_SAMPLES SUCCESS) (raw_c2 (in_sector inp))) \<noteq> 0
        then errors_c2 v + 1 else errors_c2 v)"
  by (simp add: dump_iteration_def Let_def read_block_c2_dump)

lemma c2_sector_count:
  "snd (state_from_c2 (replicate CD_DATA_SIZE_SAMPLES initial) (raw_c2 c2_sector)) \<noteq> 0"
proof -
  have "c2_quad (raw_c2 c2_sector) 0 \<noteq> 0"
    by (simp add: c2_quad_def c2_sector_def)
  moreover have "(0::nat) < CD_DATA_SIZE_SAMPLES" by simp
  ultimately have "\<exists>i<CD_DATA_SIZE_SAMPLES. c2_quad (raw_c2 c2_sector) i \<noteq> 0" by blast
  then show ?thesis by (simp only: state_from_c2_count_nonzero)
qed

lemma generic_pass_no_cache: "asus_entry generic_pass inp lba v = None"
  by (simp add: asus_entry_def generic_pass_def Let_def)

lemma asus_pass_cache: "asus_entry asus_pass good_read 60000 fresh_vars = Some c2_sector"
  by (simp add: asus_entry_def asus_buffer_def asus_pass_def good_read_def Let_def)

text \<open>
  Claim C1, as the code has it. During a dump pass, at an LBA inside any error range or
  at or past \<open>lba_end\<close> a turn of the loop never increments \<open>errors_scsi\<close>: a SCSI error
  there is not counted. C2 error bits are counted with no test of the error ranges or of
  \<open>lba_end\<close>: at any LBA that is not skipped, a sector taken from the LG/ASUS lead-out
  cache increments \<open>errors_c2\<close> by one exactly when its C2 count is not zero, and so does
  a sector read from the drive without SCSI error, with one exception: on a Plextor drive
  a slow read inside an error range is dropped before its C2 plane is looked at, and
  counts nothing. Every other turn leaves \<open>errors_c2\<close> as it is; a skipped LBA changes
  nothing at all.
\<close>

theorem dump_error_range_isolation:
  assumes "\<not> cfg_refine cfg"
  shows "(inside_range lba (cfg_error_ranges cfg) \<noteq> None \<or> cfg_lba_end cfg \<le> lba \<longrightarrow>
            errors_scsi (dump_iteration cfg inp lba v) = errors_scsi v)
       \<and> (inside_range lba (cfg_skip_ranges cfg) = None \<longrightarrow>
            (\<forall>entry. asus_entry cfg inp lba v = Some entry \<longrightarrow>
               errors_c2 (dump_iteration cfg inp lba v)
                 = (if snd (state_from_c2 (replicate CD_DATA_SIZE_SAMPLES SUCCESS_SCSI_OFF)
                             (raw_c2 entry)) \<noteq> 0
                    then errors_c2 v + 1 else errors_c2 v))
            \<and> (asus_entry cfg inp lba v = None \<longrightarrow>
               errors_c2 (dump_iteration cfg inp lba v)
                 = (if \<not> (cfg_plextor cfg \<and> in_slow inp
                             \<and> inside_range lba (cfg_error_ranges cfg) \<noteq> None)
                       \<and> in_status_code inp = 0
                       \<and> snd (state_from_c2 (replicate CD_DATA_SIZE_SAMPLES SUCCESS)
                                (raw_c2 (in_sector inp))) \<noteq> 0
                    then errors_c2 v + 1 else errors_c2 v)))
       \<and> (inside_range lba (cfg_skip_ranges cfg) \<noteq> None \<longrightarrow>
            dump_iteration cfg inp lba v = v)"
proof -
  have a: "inside_range lba (cfg_error_ranges cfg) \<noteq> None \<or> cfg_lba_end cfg \<le> lba \<longrightarrow>
            errors_scsi (dump_iteration cfg inp lba v) = errors_scsi v"
    using assms by (auto simp: dump_iteration_scsi)
  have s: "inside_range lba (cfg_skip_ranges cfg) \<noteq> None \<longrightarrow>
            dump_iteration cfg inp lba v = v"
    by (simp add: dump_iteration_def)
  show ?thesis
    using a s dump_iteration_c2_cache [OF assms] dump_iteration_c2_read [OF assms] by blast
qed

lemma plextor_pass_no_cache: "asus_entry plextor_pass inp lba v = None"
  by (simp add: asus_entry_def plextor_pass_def Let_def)

theorem dump_error_range_isolation_witness:
  "errors_scsi (dump_iteration generic_pass failed_read 30500 fresh_vars) = 0
   \<and> errors_scsi (dump_iteration generic_pass failed_read 60000 fresh_vars) = 0
   \<and> errors_c2 (dump_iteration generic_pass good_read 100 fresh_vars) = 1
   \<and> errors_c2 (dump_iteration plextor_pass slow_read 30500 fresh_vars) = 0
   \<and> errors_c2 (dump_iteration plextor_pass slow_read 100 fresh_vars) = 1"
proof -
  have p: "\<not> cfg_refine plextor_pass"
    "inside_range 30500 (cfg_skip_ranges plextor_pass) = None"
    "inside_range 30500 (cfg_error_ranges plextor_pass) \<noteq> None"
    "inside_range 100 (cfg_skip_ranges plextor_pass) = None"
    "inside_range 100 (cfg_error_ranges plextor_pass) = None"
    "cfg_plextor plextor_pass"
    by (simp_all add: plextor_pass_def)
  have q: "errors_c2 (dump_iteration plextor_pass slow_read 30500 fresh_vars) = 0
      \<and> errors_c2 (dump_iteration plextor_pass slow_read 100 fresh_vars) = 1"
    using dump_error_range_isolation [OF p(1), of 30500 slow_read fresh_vars]
      dump_error_range_isolation [OF p(1), of 100 slow_read fresh_vars]
      p plextor_pass_no_cache c2_sector_count [of SUCCESS]
    by (simp add: fresh_vars_def slow_read_def)
  have r: "\<not> cfg_refine generic_pass" by (simp add: generic_pass_def)
  have i: "inside_range 30500 (cfg_error_ranges generic_pass) \<noteq> None"
    "cfg_lba_end generic_pass \<le> 60000"
    "inside_range 100 (cfg_skip_ranges generic_pass) = None"
    "inside_range 100 (cfg_error_ranges generic_pass) = None"
    by (simp_all add: generic_pass_def)
  have g: "errors_scsi (dump_iteration generic_pass failed_read 30500 fresh_vars) = 0
   \<and> errors_scsi (dump_iteration generic_pass failed_read 60000 fresh_vars) = 0
   \<and> errors_c2 (dump_iteration generic_pass good_read 100 fresh_vars) = 1"
    using dump_error_range_isolation [OF r, of 30500 failed_read fresh_vars]
      dump_error_range_isolation [OF r, of 60000 failed_read fresh_vars]
      dump_error_range_isolation [OF r, of 100 good_read fresh_vars]
      i generic_pass_no_cache c2_sector_count [of SUCCESS]
    by (simp add: fresh_vars_def good_read_def)
  show ?thesis using g q by blast
qed

text \<open>
  Claim C1 as stated says that C2 error bits at such an LBA do not increment \<open>errors_c2\<close>.
  In a dump pass a good read at LBA 30500, inside the error range \<open>[30000, 31850)\<close>, with
  one C2 bit set takes \<open>errors_c2\<close> from 0 to 1; so does the sector served from the LG/ASUS
  lead-out cache at \<open>lba_end = 60000\<close>.
\<close>

theorem dump_c2_in_error_range_counterexample:
  "inside_range 30500 (cfg_error_ranges generic_pass) \<noteq> None
   \<and> \<not> cfg_refine generic_pass
   \<and> errors_c2 fresh_vars = 0
   \<and> errors_c2 (dump_iteration generic_pass good_read 30500 fresh_vars) = 1
   \<and> cfg_lba_end asus_pass \<le> 60000
   \<and> \<not> cfg_refine asus_pass
   \<and> errors_c2 (dump_iteration asus_pass good_read 60000 fresh_vars) = 1"
proof -
  have g: "\<not> cfg_refine generic_pass" "inside_range 30500 (cfg_skip_ranges generic_pass) = None"
    "inside_range 30500 (cfg_error_ranges generic_pass) \<noteq> None"
    by (simp_all add: generic_pass_def)
  have a: "\<not> cfg_refine asus_pass" "inside_range 60000 (cfg_skip_ranges asus_pass) = None"
    "cfg_lba_end asus_pass \<le> 60000"
    by (simp_all add: asus_pass_def)
  have 1: "errors_c2 (dump_iteration generic_pass good_read 30500 fresh_vars) = 1"
    using dump_iteration_c2_read [OF g(1) g(2) generic_pass_no_cache, of good_read fresh_vars]
      c2_sector_count [of SUCCESS]
    by (simp add: good_read_def fresh_vars_def generic_pass_def)
  have 2: "errors_c2 (dump_iteration asus_pass good_read 60000 fresh_vars) = 1"
    using dump_iteration_c2_cache [OF a(1) a(2) asus_pass_cache]
      c2_sector_count [of SUCCESS_SCSI_OFF]
    by (simp add: fresh_vars_def)
  show ?thesis using g a 1 2 by (simp add: fresh_vars_def)
qed

section \<open>Scenario S5: serial and region from the boot line\<close>

lemma boot_line_match: "regex_match boot_regex 1 boot_line = Some [boot_line, ''SCUS_944.23'']"
  by code_simp

lemma boot_line_upper: "str_uppercase ''SCUS_944.23'' = ''SCUS_944.23''"
  by code_simp

lemma scus_serial: "deduceSerial ''SCUS_944.23'' = (''SCUS'', ''94423'')"
  by code_simp

lemma scus_region: "detectRegion ''SCUS'' = ''USA''"
  by code_simp

lemma boot_path_skip:
  "\<forall>l\<in>set pre. regex_match boot_regex 1 l = None \<Longrightarrow> boot_path (pre @ rest) = boot_path rest"
  by (induction pre) simp_all

lemma boot_path_boot_line: "boot_path (boot_line # post) = ''SCUS_944.23''"
  using boot_line_match by (simp add: boot_line_upper)

text \<open>
  Claim C9. For a \<open>SYSTEM.CNF\<close> that contains the line \<open>BOOT = cdrom:\SCUS_944.23;1\<close>, with
  no earlier line that matches the BOOT pattern, \<open>findEXE\<close> yields the path \<open>SCUS_944.23\<close>,
  \<open>deduceSerial\<close> the pair \<open>SCUS\<close>, \<open>94423\<close>, printed as \<open>SCUS-94423\<close>, and \<open>detectRegion\<close>
  \<open>USA\<close>.
\<close>

theorem psx_boot_serial_region:
  assumes "getlines [] data = pre @ boot_line # post"
    and "\<forall>l\<in>set pre. regex_match boot_regex 1 l = None"
  shows "findEXE (Some data) psx_exe = ''SCUS_944.23''
       \<and> deduceSerial (findEXE (Some data) psx_exe) = (''SCUS'', ''94423'')
       \<and> serial_text (deduceSerial (findEXE (Some data) psx_exe)) = Some ''SCUS-94423''
       \<and> detectRegion (fst (deduceSerial (findEXE (Some data) psx_exe))) = ''USA''"
proof -
  have "boot_path (pre @ boot_line # post) = boot_path (boot_line # post)"
    using assms(2) by (rule boot_path_skip)
  then have p: "findEXE (Some data) psx_exe = ''SCUS_944.23''"
    using assms(1) by (simp only: findEXE_def option.case boot_path_boot_line)
  show ?thesis
    unfolding p scus_serial by (simp add: serial_text_def scus_region)
qed

lemma sample_system_cnf_lines:
  "getlines [] sample_system_cnf = [''TCB = 4''] @ boot_line # [''EVENT = 10'']"
  by code_simp

lemma tcb_no_match: "regex_match boot_regex 1 ''TCB = 4'' = None"
  by code_simp

theorem psx_boot_serial_region_witness:
  "findEXE (Some sample_system_cnf) None = ''SCUS_944.23''
   \<and> deduceSerial (findEXE (Some sample_system_cnf) None) = (''SCUS'', ''94423'')
   \<and> serial_text (deduceSerial (findEXE (Some sample_system_cnf) None)) = Some ''SCUS-94423''
   \<and> detectRegion (fst (deduceSerial (findEXE (Some sample_system_cnf) None))) = ''USA''"
proof -
  have n: "\<forall>l\<in>set [''TCB = 4'']. regex_match boot_regex 1 l = None"
    using tcb_no_match by simp
  show ?thesis
    by (rule psx_boot_serial_region [OF sample_system_cnf_lines n])
qed

section \<open>The progress percentage stays within 0..100\<close>

lemma percentage_div_lt:
  assumes "m \<noteq> 0" "v < m"
  shows "unat ((v * 100) div m :: 32 word) < 100"
proof -
  have vm: "unat v < unat m" using assms(2) by (simp add: word_less_nat_alt)
  have "unat (v * 100) = (unat v * 100) mod 2 ^ 32" by (simp add: unat_word_ariths)
  moreover have "(unat v * 100) mod 2 ^ 32 < 100 * unat m"
  proof (cases "unat v * 100 < 2 ^ 32")
    case True then show ?thesis using vm by simp
  next
    case False
    have "(unat v * 100) mod 2 ^ 32 < (2::nat) ^ 32" by simp
    then show ?thesis using False vm by linarith
  qed
  ultimately have "unat (v * 100) div unat m < 100"
    using assms(1) by (simp add: div_less_iff_less_mult unat_gt_0 mult.commute)
  then show ?thesis by (simp add: unat_div)
qed

lemma percentage_exact:
  assumes "\<not> v <s 0" "sint v * 100 < 2 ^ 31"
  shows "uint ((v * 100) div m :: 32 word) = (sint v * 100) div uint m"
proof -
  have nn: "0 \<le> sint v" using assms(1) by (simp add: word_sless_alt)
  have "uint v = sint v mod 2 ^ 32"
    using uint_word_of_int [of "sint v", where 'a = 32] by simp
  moreover have "sint v < 2 ^ 32" using assms(2) nn by simp
  ultimately have "sint v = uint v" using nn by simp
  then have "uint v * 100 < 2 ^ 32" using assms(2) by simp
  then have "uint (v * 100) = uint v * 100"
    by (simp add: uint_word_ariths)
  then show ?thesis using \<open>sint v = uint v\<close> by (simp add: uint_div)
qed

text \<open>
  Claim C10. For every \<open>int32_t value\<close> and \<open>uint32_t value_max\<close> the result of
  \<open>percentage\<close> lies in 0..100: it is 0 for a negative value, 100 when \<open>value_max\<close> is 0
  or \<open>value \<ge> value_max\<close> (so the division never sees a zero divisor), and otherwise it is
  \<open>value * 100 / value_max\<close>, strictly below 100. The product is the 32-bit one; where
  \<open>value * 100\<close> does not overflow \<open>int\<close> the result is the mathematical quotient.
\<close>

theorem percentage_range:
  "unat (percentage v m) \<le> 100
   \<and> (v <s 0 \<longrightarrow> percentage v m = 0)
   \<and> (\<not> v <s 0 \<and> (m = 0 \<or> m \<le> v) \<longrightarrow> percentage v m = 100)
   \<and> (\<not> v <s 0 \<and> m \<noteq> 0 \<and> v < m \<longrightarrow>
        percentage v m = (v * 100) div m \<and> unat (percentage v m) < 100)
   \<and> (\<not> v <s 0 \<and> m \<noteq> 0 \<and> v < m \<and> sint v * 100 < 2 ^ 31 \<longrightarrow>
        uint (percentage v m) = (sint v * 100) div uint m)"
proof -
  have lt: "m \<noteq> 0 \<Longrightarrow> v < m \<Longrightarrow> unat ((v * 100) div m) < 100"
    by (rule percentage_div_lt)
  have c1: "unat (percentage v m) \<le> 100"
    using lt by (cases "m \<le> v") (auto simp: percentage_def not_le less_imp_le)
  have c2: "v <s 0 \<longrightarrow> percentage v m = 0" by (simp add: percentage_def)
  have c3: "\<not> v <s 0 \<and> (m = 0 \<or> m \<le> v) \<longrightarrow> percentage v m = 100"
    by (simp add: percentage_def)
  have c4: "\<not> v <s 0 \<and> m \<noteq> 0 \<and> v < m \<longrightarrow>
        percentage v m = (v * 100) div m \<and> unat (percentage v m) < 100"
    using lt by (auto simp: percentage_def)
  have c5: "\<not> v <s 0 \<and> m \<noteq> 0 \<and> v < m \<and> sint v * 100 < 2 ^ 31 \<longrightarrow>
        uint (percentage v m) = (sint v * 100) div uint m"
    using percentage_exact[of v m] by (auto simp: percentage_def)
  show ?thesis using c1 c2 c3 c4 c5 by blast
qed

theorem percentage_range_witness:
  "percentage (- 1) 5 = 0 \<and> percentage 7 0 = 100 \<and> percentage 9 9 = 100
   \<and> percentage 3 4 = 75 \<and> percentage 42949673 4294967295 = 0"
  using percentage_range [of "- 1" 5] percentage_range [of 7 0] percentage_range [of 9 9]
    percentage_range [of 3 4] percentage_range [of 42949673 4294967295]
  by (simp add: word_sless_alt)

end
